theory Spec2Isabelle
  imports Main "HOL-Library.AList"
begin

section \<open>Python strings\<close>

text \<open>
  Strings are lists of characters. Only ASCII is modelled: the part names, relationship
  ids and namespace URIs of a package are ASCII.
\<close>

definition startswith :: "string \<Rightarrow> string \<Rightarrow> bool" where
  "startswith s p = (take (length p) s = p)"

definition endswith :: "string \<Rightarrow> string \<Rightarrow> bool" where
  "endswith s p = (length p \<le> length s \<and> drop (length s - length p) s = p)"

text \<open>\<^verbatim>\<open>sub in s\<close> on strings.\<close>

fun contains :: "string \<Rightarrow> string \<Rightarrow> bool" where
  "contains [] sub = (sub = [])"
| "contains (c # cs) sub = (startswith (c # cs) sub \<or> contains cs sub)"

text \<open>
  \<^verbatim>\<open>s.replace(old, new)\<close> for a non-empty \<open>old\<close>: the occurrences are replaced
  from the left, without overlap. (The source only calls it with a non-empty literal; for
  an empty \<open>old\<close> the model returns \<open>s\<close>.)
\<close>

function replace :: "string \<Rightarrow> string \<Rightarrow> string \<Rightarrow> string" where
  "replace [] old new = []"
| "replace (c # cs) old new =
     (if old \<noteq> [] \<and> startswith (c # cs) old
      then new @ replace (drop (length old) (c # cs)) old new
      else c # replace cs old new)"
  by pat_completeness auto
termination
  by (relation "measure (\<lambda>(s, old, new). length s)") auto

text \<open>\<^verbatim>\<open>str(n)\<close> for an integer.\<close>

definition digit_char :: "nat \<Rightarrow> char" where
  "digit_char d = ''0123456789'' ! d"

fun str_nat :: "nat \<Rightarrow> string" where
  "str_nat n = (if n < 10 then [digit_char n] else str_nat (n div 10) @ [digit_char (n mod 10)])"

declare str_nat.simps [simp del]

definition str_int :: "int \<Rightarrow> string" where
  "str_int i = (if i < 0 then CHR ''-'' # str_nat (nat (- i)) else str_nat (nat i))"

text \<open>
  \<^verbatim>\<open>int(s)\<close> for a string: surrounding whitespace is stripped, one sign is allowed,
  and the digits may be grouped by single underscores. \<open>None\<close> stands for ValueError.
\<close>

definition is_space :: "char \<Rightarrow> bool" where
  "is_space c = (let n = (of_char c :: nat) in (9 \<le> n \<and> n \<le> 13) \<or> (28 \<le> n \<and> n \<le> 32))"

definition is_digit :: "char \<Rightarrow> bool" where
  "is_digit c = (let n = (of_char c :: nat) in 48 \<le> n \<and> n \<le> 57)"

definition digit_val :: "char \<Rightarrow> nat" where
  "digit_val c = of_char c - 48"

lemma digit_char_cases:
  assumes "d < 10"
  shows "d = 0 \<or> d = 1 \<or> d = 2 \<or> d = 3 \<or> d = 4 \<or> d = 5 \<or> d = 6 \<or> d = 7 \<or> d = 8 \<or> d = (9::nat)"
  using assms by arith

definition strip :: "string \<Rightarrow> string" where
  "strip s = rev (dropWhile is_space (rev (dropWhile is_space s)))"

text \<open>
  The digits of a literal, read from the left with the value so far; \<open>prev\<close> tells
  whether the previous character was a digit (an underscore must stand between two digits).
\<close>

fun parse_digits :: "nat \<Rightarrow> bool \<Rightarrow> string \<Rightarrow> nat option" where
  "parse_digits acc prev [] = (if prev then Some acc else None)"
| "parse_digits acc prev (c # cs) =
     (if is_digit c then parse_digits (10 * acc + digit_val c) True cs
      else if c = CHR ''_'' \<and> prev then parse_digits acc False cs
      else None)"

definition py_int :: "string \<Rightarrow> int option" where
  "py_int s =
     (case strip s of
        [] \<Rightarrow> None
      | c # cs \<Rightarrow>
          if c = CHR ''-'' then map_option (\<lambda>n. - int n) (parse_digits 0 False cs)
          else if c = CHR ''+'' then map_option int (parse_digits 0 False cs)
          else map_option int (parse_digits 0 False (c # cs)))"

section \<open>os.path (POSIX)\<close>

text \<open>\<^verbatim>\<open>s.split(sep)\<close> for a one-character separator.\<close>

fun split_on :: "char \<Rightarrow> string \<Rightarrow> string list" where
  "split_on sep [] = [[]]"
| "split_on sep (c # cs) =
     (if c = sep then [] # split_on sep cs
      else (case split_on sep cs of
              [] \<Rightarrow> [[c]]
            | w # ws \<Rightarrow> (c # w) # ws))"

fun join_with :: "string \<Rightarrow> string list \<Rightarrow> string" where
  "join_with sep [] = []"
| "join_with sep [w] = w"
| "join_with sep (w # ws) = w @ sep @ join_with sep ws"

text \<open>\<^verbatim>\<open>os.path.join(a, b)\<close>; the source's calls with more arguments are nested.\<close>

definition path_join :: "string \<Rightarrow> string \<Rightarrow> string" where
  "path_join a b =
     (if startswith b ''/'' then b
      else if a = [] \<or> endswith a ''/'' then a @ b
      else a @ ''/'' @ b)"

definition path_join3 :: "string \<Rightarrow> string \<Rightarrow> string \<Rightarrow> string" where
  "path_join3 a b c = path_join (path_join a b) c"

definition path_join4 :: "string \<Rightarrow> string \<Rightarrow> string \<Rightarrow> string \<Rightarrow> string" where
  "path_join4 a b c d = path_join (path_join (path_join a b) c) d"

text \<open>The part of \<open>p\<close> up to and including its last slash (\<^verbatim>\<open>p[:p.rfind('/') + 1]\<close>).\<close>

definition head_part :: "string \<Rightarrow> string" where
  "head_part p = rev (dropWhile (\<lambda>c. c \<noteq> CHR ''/'') (rev p))"

definition basename :: "string \<Rightarrow> string" where
  "basename p = rev (takeWhile (\<lambda>c. c \<noteq> CHR ''/'') (rev p))"

definition dirname :: "string \<Rightarrow> string" where
  "dirname p =
     (let head = head_part p
      in if head \<noteq> [] \<and> \<not> list_all (\<lambda>c. c = CHR ''/'') head
         then rev (dropWhile (\<lambda>c. c = CHR ''/'') (rev head))
         else head)"

text \<open>
  \<^verbatim>\<open>os.path.splitext(p)[1]\<close>: the extension starts at the last dot of the last
  component, unless only dots precede it there.
\<close>

definition splitext_ext :: "string \<Rightarrow> string" where
  "splitext_ext p =
     (let name = basename p;
          stem = rev (tl (dropWhile (\<lambda>c. c \<noteq> CHR ''.'') (rev name)))
      in if CHR ''.'' \<in> set name \<and> \<not> list_all (\<lambda>c. c = CHR ''.'') stem
         then drop (length stem) name
         else [])"

text \<open>\<^verbatim>\<open>os.path.normpath\<close>: the loop over the components, then the two fix-ups.\<close>

fun norm_comps :: "bool \<Rightarrow> string list \<Rightarrow> string list \<Rightarrow> string list" where
  "norm_comps initial_slashes new_comps [] = new_comps"
| "norm_comps initial_slashes new_comps (part # parts) =
     (if part = [] \<or> part = ''.'' then norm_comps initial_slashes new_comps parts
      else if part \<noteq> ''..'' \<or> (\<not> initial_slashes \<and> new_comps = [])
                \<or> (new_comps \<noteq> [] \<and> last new_comps = ''..'')
      then norm_comps initial_slashes (new_comps @ [part]) parts
      else if new_comps \<noteq> [] then norm_comps initial_slashes (butlast new_comps) parts
      else norm_comps initial_slashes new_comps parts)"

definition normpath :: "string \<Rightarrow> string" where
  "normpath path =
     (if path = [] then ''.''
      else
        let initial_slashes =
              (if startswith path ''/''
               then (if startswith path ''//'' \<and> \<not> startswith path ''///'' then 2 else 1)
               else (0::nat));
            comps = norm_comps (initial_slashes \<noteq> 0) [] (split_on CHR ''/'' path);
            p = replicate initial_slashes CHR ''/'' @ join_with ''/'' comps
        in if p = [] then ''.'' else p)"

section \<open>XML element trees (xml.etree.ElementTree)\<close>

text \<open>
  An element has a tag in Clark notation (\<^verbatim>\<open>{uri}local\<close>), its attributes in insertion
  order, and its children. Text content is not modelled: the source never reads it.
\<close>

datatype element = Element (tag: string) (attrib: "(string \<times> string) list") (children: "element list")

definition get_attr :: "element \<Rightarrow> string \<Rightarrow> string option" where
  "get_attr e k = map_of (attrib e) k"

definition set_attr :: "string \<Rightarrow> string \<Rightarrow> element \<Rightarrow> element" where
  "set_attr k v e = Element (tag e) (AList.update k v (attrib e)) (children e)"

text \<open>All descendants of a list of siblings, in document order (\<^verbatim>\<open>.//*\<close> from their parent).\<close>

fun descendants :: "element list \<Rightarrow> element list" where
  "descendants [] = []"
| "descendants (Element t a cs # es) = Element t a cs # descendants cs @ descendants es"

text \<open>\<^verbatim>\<open>root.findall('.//*[@key]')\<close>\<close>

definition findall_with_attr :: "element \<Rightarrow> string \<Rightarrow> element list" where
  "findall_with_attr root k = filter (\<lambda>e. get_attr e k \<noteq> None) (descendants (children root))"

text \<open>
  A prefixed name \<^verbatim>\<open>p:local\<close> of a path expression, with the prefix bound to \<open>ns\<close>:
  the tag \<^verbatim>\<open>{ns}local\<close>, and for an empty \<open>ns\<close> the tag \<^verbatim>\<open>local\<close> (ElementPath reads
  \<^verbatim>\<open>{}local\<close> as the name without namespace).
\<close>

definition qname :: "string \<Rightarrow> string \<Rightarrow> string" where
  "qname ns local = (if ns = [] then local else ''{'' @ ns @ ''}'' @ local)"

text \<open>\<^verbatim>\<open>root.find('.//p:local', {'p': ns})\<close>: the first descendant with that tag.\<close>

definition find_descendant :: "element \<Rightarrow> string \<Rightarrow> element option" where
  "find_descendant root t = List.find (\<lambda>e. tag e = t) (descendants (children root))"

text \<open>\<^verbatim>\<open>elem.findall('./p:local', {'p': ns})\<close>: the children with that tag.\<close>

definition findall_children :: "element \<Rightarrow> string \<Rightarrow> element list" where
  "findall_children e t = filter (\<lambda>c. tag c = t) (children e)"

text \<open>\<^verbatim>\<open>root.findall('.//{*}local')\<close>: the descendants named \<open>local\<close> in any namespace or none.\<close>

definition findall_any_ns :: "element \<Rightarrow> string \<Rightarrow> element list" where
  "findall_any_ns root local =
     filter (\<lambda>e. tag e = local \<or> endswith (tag e) (''}'' @ local)) (descendants (children root))"

text \<open>
  \<^verbatim>\<open>ET.SubElement(parent, tag)\<close> followed by \<^verbatim>\<open>set\<close> calls appends a new last child.
  When \<open>parent\<close> is the first descendant of \<open>root\<close> with tag \<open>t\<close>, the tree of \<open>root\<close>
  changes in place; \<open>append_into_first\<close> is that change, \<open>None\<close> when no descendant has the tag.
\<close>

definition append_children :: "element list \<Rightarrow> element \<Rightarrow> element" where
  "append_children new e = Element (tag e) (attrib e) (children e @ new)"

fun append_into_first :: "string \<Rightarrow> element list \<Rightarrow> element list \<Rightarrow> element list option" where
  "append_into_first t new [] = None"
| "append_into_first t new (Element t' a cs # es) =
     (if t' = t then Some (Element t' a (cs @ new) # es)
      else (case append_into_first t new cs of
              Some cs' \<Rightarrow> Some (Element t' a cs' # es)
            | None \<Rightarrow> map_option (\<lambda>es'. Element t' a cs # es') (append_into_first t new es)))"

text \<open>
  \<open>get_namespace\<close> of the source: \<^verbatim>\<open>re.match(r'\{(.*)\}', element.tag)\<close> succeeds when the tag
  starts with an opening brace and a closing brace follows on the same line; the group
  is greedy, so it ends at the last closing brace of that line.
\<close>

definition match_braces :: "string \<Rightarrow> string option" where
  "match_braces t =
     (case t of
        [] \<Rightarrow> None
      | c # cs \<Rightarrow>
          let line = takeWhile (\<lambda>x. x \<noteq> CHR 0x0A) cs
          in if c = CHR ''{'' \<and> CHR ''}'' \<in> set line
             then Some (rev (tl (dropWhile (\<lambda>x. x \<noteq> CHR ''}'') (rev line))))
             else None)"

definition get_namespace :: "element \<Rightarrow> string \<Rightarrow> string" where
  "get_namespace element prefix =
     (case match_braces (tag element) of
        Some namespace \<Rightarrow>
          if prefix = ''p'' then namespace
          else if prefix = ''r''
          then replace namespace ''schemas.openxmlformats.org/presentationml''
                 ''schemas.openxmlformats.org/officeDocument''
          else []
      | None \<Rightarrow> [])"

section \<open>The file system\<close>

text \<open>
  A file holds a parsed XML document, a zip archive (its members by name) or other bytes.
  Serialising a document and parsing it again is taken to give the same tree. The file
  system is an association list from normalised paths to nodes; a path is looked up by
  its \<open>normpath\<close>. The current directory and the root always exist.

  An exception is a value. It carries the file system as it was when the exception was
  raised, because what was written before stays written.
\<close>

datatype content = Xml element | Raw string | Zip "(string \<times> content) list"

datatype node = Dir | File content

type_synonym filesystem = "(string \<times> node) list"

datatype exn =
    FileNotFoundError | NotADirectoryError | IsADirectoryError | FileExistsError
  | SameFileError | BadZipFile | ParseError | TypeError | ValueError | SyntaxError
  | AttributeError

type_synonym 'a result = "(exn \<times> filesystem) + 'a"

definition bind :: "'e + 'a \<Rightarrow> ('a \<Rightarrow> 'e + 'b) \<Rightarrow> 'e + 'b" where
  "bind m f = (case m of Inl e \<Rightarrow> Inl e | Inr x \<Rightarrow> f x)"

lemma bind_cong [fundef_cong]:
  assumes "m = m'" and "\<And>x. m' = Inr x \<Longrightarrow> f x = f' x"
  shows "bind m f = bind m' f'"
  using assms by (cases m') (simp_all add: bind_def)

lemma bind_Inl [simp]: "bind (Inl e) f = Inl e"
  by (simp add: bind_def)

lemma bind_Inr [simp]: "bind (Inr x) f = f x"
  by (simp add: bind_def)

definition node_at :: "filesystem \<Rightarrow> string \<Rightarrow> node option" where
  "node_at fs p =
     (if p = [] then None
      else let q = normpath p
           in if q = ''.'' \<or> q = ''/'' \<or> q = ''//'' then Some Dir else map_of fs q)"

definition exists :: "filesystem \<Rightarrow> string \<Rightarrow> bool" where
  "exists fs p = (node_at fs p \<noteq> None)"

definition isdir :: "filesystem \<Rightarrow> string \<Rightarrow> bool" where
  "isdir fs p = (node_at fs p = Some Dir)"

definition isfile :: "filesystem \<Rightarrow> string \<Rightarrow> bool" where
  "isfile fs p = (case node_at fs p of Some (File c) \<Rightarrow> True | _ \<Rightarrow> False)"

text \<open>The node of the directory that holds \<open>p\<close>.\<close>

definition parent_node :: "filesystem \<Rightarrow> string \<Rightarrow> node option" where
  "parent_node fs p = (let d = dirname (normpath p) in if d = [] then Some Dir else node_at fs d)"

definition mkdir :: "filesystem \<Rightarrow> string \<Rightarrow> filesystem result" where
  "mkdir fs p =
     (if p = [] then Inl (FileNotFoundError, fs)
      else if exists fs p then Inl (FileExistsError, fs)
      else (case parent_node fs p of
              None \<Rightarrow> Inl (FileNotFoundError, fs)
            | Some (File c) \<Rightarrow> Inl (NotADirectoryError, fs)
            | Some Dir \<Rightarrow> Inr (AList.update (normpath p) Dir fs)))"

text \<open>The path and the directories above it, outermost first.\<close>

definition ancestors :: "string \<Rightarrow> string list" where
  "ancestors p =
     (let comps = split_on CHR ''/'' (normpath p)
      in filter (\<lambda>a. a \<noteq> []) (map (\<lambda>k. join_with ''/'' (take k comps)) [1 ..< Suc (length comps)]))"

text \<open>
  \<^verbatim>\<open>os.makedirs(name, exist_ok=...)\<close>: the missing directories above \<open>name\<close> are made, then
  \<open>name\<close> itself; an existing \<open>name\<close> is an error unless \<open>exist_ok\<close> and it is a directory.
\<close>

fun make_missing :: "filesystem \<Rightarrow> string list \<Rightarrow> filesystem result" where
  "make_missing fs [] = Inr fs"
| "make_missing fs (a # as) =
     (if exists fs a then make_missing fs as
      else bind (mkdir fs a) (\<lambda>fs'. make_missing fs' as))"

definition makedirs :: "filesystem \<Rightarrow> string \<Rightarrow> bool \<Rightarrow> filesystem result" where
  "makedirs fs name exist_ok =
     bind (make_missing fs (butlast (ancestors name)))
       (\<lambda>fs'. case mkdir fs' name of
                 Inr fs'' \<Rightarrow> Inr fs''
               | Inl e \<Rightarrow> if \<not> exist_ok \<or> \<not> isdir fs' name then Inl e else Inr fs')"

text \<open>The source's idiom \<^verbatim>\<open>if not os.path.exists(d): os.makedirs(d)\<close>.\<close>

definition ensure_dir :: "filesystem \<Rightarrow> string \<Rightarrow> filesystem result" where
  "ensure_dir fs d = (if \<not> exists fs d then makedirs fs d False else Inr fs)"

definition read_file :: "filesystem \<Rightarrow> string \<Rightarrow> content result" where
  "read_file fs p =
     (case node_at fs p of
        None \<Rightarrow> Inl (FileNotFoundError, fs)
      | Some Dir \<Rightarrow> Inl (IsADirectoryError, fs)
      | Some (File c) \<Rightarrow> Inr c)"

definition write_file :: "filesystem \<Rightarrow> string \<Rightarrow> content \<Rightarrow> filesystem result" where
  "write_file fs p c =
     (if p = [] then Inl (FileNotFoundError, fs)
      else if isdir fs p then Inl (IsADirectoryError, fs)
      else (case parent_node fs p of
              None \<Rightarrow> Inl (FileNotFoundError, fs)
            | Some (File c') \<Rightarrow> Inl (NotADirectoryError, fs)
            | Some Dir \<Rightarrow> Inr (AList.update (normpath p) (File c) fs)))"

text \<open>\<^verbatim>\<open>shutil.copy2(src, dst)\<close>: into \<open>dst\<close> when it is a directory, over it otherwise.\<close>

definition copy2 :: "filesystem \<Rightarrow> string \<Rightarrow> string \<Rightarrow> filesystem result" where
  "copy2 fs src dst =
     (let dst' = (if isdir fs dst then path_join dst (basename src) else dst)
      in if exists fs src \<and> exists fs dst' \<and> normpath src = normpath dst'
         then Inl (SameFileError, fs)
         else bind (read_file fs src) (\<lambda>c. write_file fs dst' c))"

definition under :: "string \<Rightarrow> string \<Rightarrow> bool" where
  "under d k = startswith k (d @ ''/'')"

definition rmtree :: "filesystem \<Rightarrow> string \<Rightarrow> filesystem result" where
  "rmtree fs p =
     (case node_at fs p of
        None \<Rightarrow> Inl (FileNotFoundError, fs)
      | Some (File c) \<Rightarrow> Inl (NotADirectoryError, fs)
      | Some Dir \<Rightarrow> Inr (filter (\<lambda>(k, n). k \<noteq> normpath p \<and> \<not> under (normpath p) k) fs))"

text \<open>\<^verbatim>\<open>os.listdir(d)\<close>; the order of the names is the order of the association list.\<close>

definition listdir :: "filesystem \<Rightarrow> string \<Rightarrow> string list result" where
  "listdir fs d =
     (case node_at fs d of
        None \<Rightarrow> Inl (FileNotFoundError, fs)
      | Some (File c) \<Rightarrow> Inl (NotADirectoryError, fs)
      | Some Dir \<Rightarrow>
          Inr (map basename
                (filter (\<lambda>k. under (normpath d) k \<and> dirname k = normpath d) (map fst fs))))"

text \<open>\<^verbatim>\<open>ET.parse(path).getroot()\<close>\<close>

definition parse :: "filesystem \<Rightarrow> string \<Rightarrow> element result" where
  "parse fs p =
     bind (read_file fs p) (\<lambda>c. case c of Xml e \<Rightarrow> Inr e | _ \<Rightarrow> Inl (ParseError, fs))"

text \<open>\<^verbatim>\<open>tree.write(path, encoding='UTF-8', xml_declaration=True)\<close>\<close>

definition write_xml :: "filesystem \<Rightarrow> string \<Rightarrow> element \<Rightarrow> filesystem result" where
  "write_xml fs p root = write_file fs p (Xml root)"

text \<open>
  \<^verbatim>\<open>zipfile.ZipFile(path, 'r').extractall(dir)\<close>. A member's name loses its empty,
  \<^verbatim>\<open>.\<close> and \<^verbatim>\<open>..\<close> components; the directories above the member are made when missing;
  a member whose name ends with a slash is a directory.
\<close>

definition sanitize :: "string \<Rightarrow> string" where
  "sanitize name =
     join_with ''/'' (filter (\<lambda>x. x \<noteq> [] \<and> x \<noteq> ''.'' \<and> x \<noteq> ''..'') (split_on CHR ''/'' name))"

definition extract_member :: "filesystem \<Rightarrow> string \<Rightarrow> string \<times> content \<Rightarrow> filesystem result" where
  "extract_member fs dir m =
     (let targetpath = normpath (path_join dir (sanitize (fst m)));
          upperdirs = dirname targetpath
      in bind (if upperdirs \<noteq> [] \<and> \<not> exists fs upperdirs then makedirs fs upperdirs False else Inr fs)
           (\<lambda>fs1. if endswith (fst m) ''/''
                   then (if \<not> isdir fs1 targetpath then mkdir fs1 targetpath else Inr fs1)
                   else write_file fs1 targetpath (snd m)))"

fun extract_members :: "filesystem \<Rightarrow> string \<Rightarrow> (string \<times> content) list \<Rightarrow> filesystem result" where
  "extract_members fs dir [] = Inr fs"
| "extract_members fs dir (m # ms) =
     bind (extract_member fs dir m) (\<lambda>fs'. extract_members fs' dir ms)"

section \<open>copy\_elements\_method.py\<close>

definition extract_pptx :: "filesystem \<Rightarrow> string \<Rightarrow> string \<Rightarrow> filesystem result" where
  "extract_pptx fs pptx_path extract_dir =
     bind (read_file fs pptx_path)
       (\<lambda>c. case c of Zip ms \<Rightarrow> extract_members fs extract_dir ms | _ \<Rightarrow> Inl (BadZipFile, fs))"

text \<open>
  \<open>create_pptx\<close>: every file below \<open>source_dir\<close> becomes a member named by its path
  relative to \<open>source_dir\<close>. The members are listed in the order of the association list.
\<close>

definition zip_members :: "filesystem \<Rightarrow> string \<Rightarrow> (string \<times> content) list" where
  "zip_members fs source_dir =
     List.map_filter
       (\<lambda>(k, n). case n of
                    File c \<Rightarrow> if under (normpath source_dir) k
                              then Some (drop (Suc (length (normpath source_dir))) k, c) else None
                  | Dir \<Rightarrow> None) fs"

definition create_pptx :: "filesystem \<Rightarrow> string \<Rightarrow> string \<Rightarrow> filesystem result" where
  "create_pptx fs source_dir output_path = write_file fs output_path (Zip (zip_members fs source_dir))"

text \<open>
  The state that the merge threads through its loops: the file system, the dictionary
  \<open>added_media\<close> (in insertion order), the number of values drawn from \<^verbatim>\<open>uuid.uuid4()\<close> so
  far, the two counters, and the elements appended so far to the slide list and to the
  relationships of the base presentation. The \<open>n\<close>-th value of \<^verbatim>\<open>uuid.uuid4().hex[:8]\<close>
  is \<open>uuid n\<close>; the function \<open>uuid\<close> is a parameter of the model.
\<close>

record state =
  files :: filesystem
  added_media :: "(string \<times> string) list"
  drawn :: nat
  max_slide_id :: int
  max_rel_id :: int
  new_slide_elems :: "element list"
  new_rel_elems :: "element list"

text \<open>
  A loop \<^verbatim>\<open>for rel in root.findall('.//*[@Target]')\<close> whose body changes attributes of
  \<open>rel\<close> only: the elements are visited in document order, the state is threaded, the tree
  keeps its shape.
\<close>

fun traverse ::
  "('s \<Rightarrow> element \<Rightarrow> ('s \<times> element) result) \<Rightarrow> 's \<Rightarrow> element list \<Rightarrow> ('s \<times> element list) result" where
  "traverse f s [] = Inr (s, [])"
| "traverse f s (Element t a cs # es) =
     bind (f s (Element t a cs)) (\<lambda>(s1, e1).
     bind (traverse f s1 cs) (\<lambda>(s2, cs').
     bind (traverse f s2 es) (\<lambda>(s3, es').
       Inr (s3, Element (tag e1) (attrib e1) cs' # es'))))"

subsection \<open>process\_chart\_relationships\<close>

definition process_chart_rel ::
  "(nat \<Rightarrow> string) \<Rightarrow> string \<Rightarrow> string \<Rightarrow> state \<Rightarrow> element \<Rightarrow> (state \<times> element) result" where
  "process_chart_rel uuid base_dir add_dir st rel =
     (case get_attr rel ''Target'' of
        None \<Rightarrow> Inr (st, rel)
      | Some target \<Rightarrow>
          (case get_attr rel ''Type'' of
             None \<Rightarrow> Inl (TypeError, files st)
           | Some rel_type \<Rightarrow>
               if contains rel_type ''package'' \<and> contains target ''.xlsx''
               then
                 let excel_path = (if startswith target ''../'' then drop 3 target else target);
                     source_excel_path = path_join add_dir excel_path;
                     excel_id = ''embeddings/Microsoft_Excel_Sheet'' @ uuid (drawn st) @ ''.xlsx'';
                     embed_dir = path_join base_dir ''embeddings'';
                     target_excel_path = path_join base_dir excel_id
                 in bind (ensure_dir (files st) embed_dir) (\<lambda>fs1.
                    bind (if exists fs1 source_excel_path
                          then copy2 fs1 source_excel_path target_excel_path else Inr fs1) (\<lambda>fs2.
                      Inr (st\<lparr>files := fs2, drawn := Suc (drawn st)\<rparr>,
                           set_attr ''Target'' (''../'' @ excel_id) rel)))
               else Inr (st, rel)))"

definition process_chart_relationships ::
  "(nat \<Rightarrow> string) \<Rightarrow> string \<Rightarrow> string \<Rightarrow> string \<Rightarrow> string \<Rightarrow> state \<Rightarrow> state result" where
  "process_chart_relationships uuid chart_rel_path target_chart_rel_path base_dir add_dir st =
     (if \<not> exists (files st) chart_rel_path then Inr st
      else
        bind (parse (files st) chart_rel_path) (\<lambda>rels_root.
        bind (traverse (process_chart_rel uuid base_dir add_dir) st (children rels_root)) (\<lambda>(st1, cs').
        bind (write_xml (files st1) target_chart_rel_path
                (Element (tag rels_root) (attrib rels_root) cs')) (\<lambda>fs'.
          Inr (st1\<lparr>files := fs'\<rparr>)))))"

subsection \<open>process\_slide\_relationships\<close>

definition process_media_rel ::
  "string \<Rightarrow> string \<Rightarrow> string \<Rightarrow> state \<Rightarrow> element \<Rightarrow> string \<Rightarrow> (state \<times> element) result" where
  "process_media_rel base_dir add_dir slide_path st rel target =
     (if \<not> startswith target ''http''
      then
        let media_path = normpath (path_join (dirname slide_path) target);
            source_media_path = path_join3 add_dir ''ppt'' media_path
        in bind
             (if map_of (added_media st) media_path = None
              then
                let ext = splitext_ext media_path;
                    new_filename = ''media/image'' @ str_int (int (length (added_media st)) + 1) @ ext;
                    media_dir = path_join3 base_dir ''ppt'' ''media'';
                    target_media_path = path_join3 base_dir ''ppt'' new_filename
                in bind (ensure_dir (files st) media_dir) (\<lambda>fs1.
                   bind (if exists fs1 source_media_path
                         then copy2 fs1 source_media_path target_media_path else Inr fs1) (\<lambda>fs2.
                     Inr (st\<lparr>files := fs2,
                              added_media := added_media st @ [(media_path, new_filename)]\<rparr>)))
              else Inr st)
             (\<lambda>st1. Inr (st1, set_attr ''Target''
                                 (''../'' @ the (map_of (added_media st1) media_path)) rel))
      else Inr (st, rel))"

definition process_chart_target ::
  "(nat \<Rightarrow> string) \<Rightarrow> string \<Rightarrow> string \<Rightarrow> string \<Rightarrow> state \<Rightarrow> element \<Rightarrow> string \<Rightarrow> (state \<times> element) result" where
  "process_chart_target uuid base_dir add_dir slide_path st rel target =
     (let chart_path = normpath (path_join (dirname slide_path) target);
          source_chart_path = path_join3 add_dir ''ppt'' chart_path;
          chart_id = ''chart'' @ uuid (drawn st);
          st0 = st\<lparr>drawn := Suc (drawn st)\<rparr>;
          new_chart_path = ''charts/'' @ chart_id @ ''.xml'';
          charts_dir = path_join3 base_dir ''ppt'' ''charts'';
          target_chart_path = path_join3 base_dir ''ppt'' new_chart_path
      in bind (ensure_dir (files st0) charts_dir) (\<lambda>fs1.
         bind
           (if exists fs1 source_chart_path
            then
              bind (copy2 fs1 source_chart_path target_chart_path) (\<lambda>fs2.
                let chart_rel_dir = path_join4 add_dir ''ppt'' ''charts'' ''_rels'';
                    chart_rel_file = basename chart_path @ ''.rels'';
                    chart_rel_path = path_join chart_rel_dir chart_rel_file;
                    target_chart_rel_dir = path_join4 base_dir ''ppt'' ''charts'' ''_rels''
                in bind (ensure_dir fs2 target_chart_rel_dir) (\<lambda>fs3.
                     let target_chart_rel_path = path_join target_chart_rel_dir (chart_id @ ''.xml.rels'')
                     in if exists fs3 chart_rel_path
                        then process_chart_relationships uuid chart_rel_path target_chart_rel_path
                               base_dir add_dir (st0\<lparr>files := fs3\<rparr>)
                        else Inr (st0\<lparr>files := fs3\<rparr>)))
            else Inr (st0\<lparr>files := fs1\<rparr>))
           (\<lambda>st1. Inr (st1, set_attr ''Target'' (''../'' @ new_chart_path) rel))))"

definition process_slide_rel ::
  "(nat \<Rightarrow> string) \<Rightarrow> string \<Rightarrow> string \<Rightarrow> string \<Rightarrow> state \<Rightarrow> element \<Rightarrow> (state \<times> element) result" where
  "process_slide_rel uuid base_dir add_dir slide_path st rel =
     (case get_attr rel ''Target'' of
        None \<Rightarrow> Inr (st, rel)
      | Some target \<Rightarrow>
          (case get_attr rel ''Type'' of
             None \<Rightarrow> Inl (TypeError, files st)
           | Some rel_type \<Rightarrow>
               if contains rel_type ''image'' \<or> contains rel_type ''audio'' \<or> contains rel_type ''video''
               then process_media_rel base_dir add_dir slide_path st rel target
               else if contains rel_type ''chart''
               then process_chart_target uuid base_dir add_dir slide_path st rel target
               else Inr (st, rel)))"

definition process_slide_relationships ::
  "(nat \<Rightarrow> string) \<Rightarrow> string \<Rightarrow> string \<Rightarrow> string \<Rightarrow> string \<Rightarrow> state \<Rightarrow> state result" where
  "process_slide_relationships uuid base_dir add_dir slide_path new_slide_path st =
     (let slide_rel_dir = path_join4 add_dir ''ppt'' (dirname slide_path) ''_rels'';
          slide_rel_file = basename slide_path @ ''.rels'';
          slide_rel_path = path_join slide_rel_dir slide_rel_file;
          target_rel_dir = path_join4 base_dir ''ppt'' (dirname new_slide_path) ''_rels''
      in bind (ensure_dir (files st) target_rel_dir) (\<lambda>fs1.
           let target_rel_path = path_join target_rel_dir (basename new_slide_path @ ''.rels'')
           in if \<not> exists fs1 slide_rel_path then Inr (st\<lparr>files := fs1\<rparr>)
              else
                bind (parse fs1 slide_rel_path) (\<lambda>rels_root.
                bind (traverse (process_slide_rel uuid base_dir add_dir slide_path)
                        (st\<lparr>files := fs1\<rparr>) (children rels_root)) (\<lambda>(st1, cs').
                bind (write_xml (files st1) target_rel_path
                        (Element (tag rels_root) (attrib rels_root) cs')) (\<lambda>fs'.
                  Inr (st1\<lparr>files := fs'\<rparr>))))))"

subsection \<open>update\_content\_types\<close>

definition ct_ns :: string where
  "ct_ns = ''http://schemas.openxmlformats.org/package/2006/content-types''"

definition extensions :: "(string \<times> string) list" where
  "extensions =
     [(''.jpeg'', ''image/jpeg''), (''.jpg'', ''image/jpeg''), (''.png'', ''image/png''),
      (''.gif'', ''image/gif''), (''.wmf'', ''image/x-wmf''), (''.mp3'', ''audio/mp3''),
      (''.mp4'', ''video/mp4''),
      (''.xlsx'', ''application/vnd.openxmlformats-officedocument.spreadsheetml.sheet'')]"

definition slide_content_type :: string where
  "slide_content_type = ''application/vnd.openxmlformats-officedocument.presentationml.slide+xml''"

definition chart_content_type :: string where
  "chart_content_type = ''application/vnd.openxmlformats-officedocument.drawingml.chart+xml''"

definition new_defaults :: "element \<Rightarrow> element list" where
  "new_defaults root =
     (let existing_defaults = map (\<lambda>ext. get_attr ext ''Extension'') (findall_any_ns root ''Default'')
      in map (\<lambda>(ext, mime).
                set_attr ''ContentType'' mime
                  (set_attr ''Extension'' (drop 1 ext) (Element (''{'' @ ct_ns @ ''}Default'') [] [])))
           (filter (\<lambda>(ext, mime). Some (drop 1 ext) \<notin> set existing_defaults) extensions))"

definition existing_overrides :: "element \<Rightarrow> string list" where
  "existing_overrides root =
     List.map_filter
       (\<lambda>override. case get_attr override ''PartName'' of
                      Some part_name \<Rightarrow> if part_name \<noteq> [] then Some part_name else None
                    | None \<Rightarrow> None)
       (findall_any_ns root ''Override'')"

definition new_overrides :: "string list \<Rightarrow> string \<Rightarrow> string \<Rightarrow> string list \<Rightarrow> element list" where
  "new_overrides existing prefix ctype names =
     map (\<lambda>name. set_attr ''ContentType'' ctype
                   (set_attr ''PartName'' (prefix @ name) (Element (''{'' @ ct_ns @ ''}Override'') [] [])))
       (filter (\<lambda>name. endswith name ''.xml'' \<and> prefix @ name \<notin> set existing) names)"

definition update_content_types :: "filesystem \<Rightarrow> string \<Rightarrow> filesystem result" where
  "update_content_types fs base_dir =
     (let content_types_path = path_join base_dir ''[Content_Types].xml''
      in if \<not> exists fs content_types_path then Inr fs
         else
           bind (parse fs content_types_path) (\<lambda>root.
             let root1 = append_children (new_defaults root) root;
                 existing = existing_overrides root1
             in bind (listdir fs (path_join3 base_dir ''ppt'' ''slides'')) (\<lambda>slide_files.
                  let root2 = append_children
                                (new_overrides existing ''/ppt/slides/'' slide_content_type slide_files) root1
                  in bind (if exists fs (path_join3 base_dir ''ppt'' ''charts'')
                           then listdir fs (path_join3 base_dir ''ppt'' ''charts'') else Inr [])
                       (\<lambda>chart_files.
                          write_xml fs content_types_path
                            (append_children
                               (new_overrides existing ''/ppt/charts/'' chart_content_type chart_files)
                               root2)))))"

subsection \<open>merge\_presentations\<close>

definition temp_dir :: string where
  "temp_dir = ''temp_ppt_merge''"

definition base_dir :: string where
  "base_dir = path_join temp_dir ''base''"

definition add_dir :: string where
  "add_dir = path_join temp_dir ''add''"

definition slide_rel_type :: string where
  "slide_rel_type = ''http://schemas.openxmlformats.org/officeDocument/2006/relationships/slide''"

text \<open>A list comprehension whose element expression may raise.\<close>

fun map_result :: "('a \<Rightarrow> 'e + 'b) \<Rightarrow> 'a list \<Rightarrow> 'e + 'b list" where
  "map_result f [] = Inr []"
| "map_result f (x # xs) = bind (f x) (\<lambda>y. bind (map_result f xs) (\<lambda>ys. Inr (y # ys)))"

text \<open>\<^verbatim>\<open>int(v)\<close> for an attribute value that may be missing.\<close>

definition int_of_attr :: "filesystem \<Rightarrow> string option \<Rightarrow> int result" where
  "int_of_attr fs v =
     (case v of
        None \<Rightarrow> Inl (TypeError, fs)
      | Some s \<Rightarrow> (case py_int s of None \<Rightarrow> Inl (ValueError, fs) | Some i \<Rightarrow> Inr i))"

text \<open>\<^verbatim>\<open>int(rel.get('Id').replace('rId', ''))\<close>\<close>

definition rel_id_number :: "filesystem \<Rightarrow> element \<Rightarrow> int result" where
  "rel_id_number fs rel =
     (case get_attr rel ''Id'' of
        None \<Rightarrow> Inl (AttributeError, fs)
      | Some rid \<Rightarrow> int_of_attr fs (Some (replace rid ''rId'' [])))"

text \<open>\<^verbatim>\<open>max(xs) if xs else d\<close>\<close>

definition max_or :: "int list \<Rightarrow> int \<Rightarrow> int" where
  "max_or xs d = (case xs of [] \<Rightarrow> d | x # xs' \<Rightarrow> fold max xs' x)"

text \<open>
  The slide list of the base presentation: the first \<^verbatim>\<open>sldIdLst\<close> descendant of the root,
  or else a new one under the first \<^verbatim>\<open>presentation\<close> descendant (\<open>True\<close> marks the new
  one). \<^verbatim>\<open>ET.SubElement(None, ...)\<close> raises TypeError.
\<close>

definition find_slides_element :: "filesystem \<Rightarrow> element \<Rightarrow> (element \<times> bool) result" where
  "find_slides_element fs root =
     (let ns = get_namespace root ''p''
      in case find_descendant root (qname ns ''sldIdLst'') of
           Some slides_element \<Rightarrow> Inr (slides_element, False)
         | None \<Rightarrow>
             (case find_descendant root (qname ns ''presentation'') of
                None \<Rightarrow> Inl (TypeError, fs)
              | Some parent \<Rightarrow> Inr (Element (''{'' @ ns @ ''}sldIdLst'') [] [], True)))"

text \<open>The tree of the base presentation with the new \<^verbatim>\<open>sldId\<close> elements in its slide list.\<close>

definition with_new_slides :: "element \<Rightarrow> bool \<Rightarrow> element list \<Rightarrow> element" where
  "with_new_slides root created new =
     (let ns = get_namespace root ''p'';
          cs = (if created
                then append_into_first (qname ns ''presentation'')
                       [Element (''{'' @ ns @ ''}sldIdLst'') [] new] (children root)
                else append_into_first (qname ns ''sldIdLst'') new (children root))
      in Element (tag root) (attrib root) (case cs of Some cs' \<Rightarrow> cs' | None \<Rightarrow> children root))"

text \<open>
  The two elements made for a copied slide with the counters \<open>i\<close> (slide id) and \<open>j\<close>
  (relationship id): the \<^verbatim>\<open>sldId\<close> entry of the slide list and the \<^verbatim>\<open>Relationship\<close> of
  \<^verbatim>\<open>presentation.xml.rels\<close>.
\<close>

definition new_slide_elem :: "element \<Rightarrow> int \<Rightarrow> int \<Rightarrow> element" where
  "new_slide_elem root i j =
     set_attr (''{'' @ get_namespace root ''r'' @ ''}id'') (''rId'' @ str_int j)
       (set_attr ''id'' (str_int i) (Element (''{'' @ get_namespace root ''p'' @ ''}sldId'') [] []))"

definition new_rel_elem :: "element \<Rightarrow> int \<Rightarrow> int \<Rightarrow> element" where
  "new_rel_elem rels_root i j =
     set_attr ''Target'' (''slides/slide'' @ str_int i @ ''.xml'')
       (set_attr ''Type'' slide_rel_type
          (set_attr ''Id'' (''rId'' @ str_int j)
             (Element (''{'' @ get_namespace rels_root ''p'' @ ''}Relationship'') [] [])))"

text \<open>
  The body of the loop over the slides of the presentation to be added, in two parts:
  \<open>add_slide\<close> is the body from \<^verbatim>\<open># Create new slide IDs\<close> on, \<open>copy_slide\<close> the whole body.
\<close>

definition add_slide ::
  "(nat \<Rightarrow> string) \<Rightarrow> element \<Rightarrow> element \<Rightarrow> state \<Rightarrow> string \<Rightarrow> state result" where
  "add_slide uuid root rels_root st slide_path =
     (let full_add_slide_path = path_join3 add_dir ''ppt'' slide_path;
          max_slide_id' = max_slide_id st + 1;
          max_rel_id' = max_rel_id st + 1;
          new_slide_path = ''slides/slide'' @ str_int max_slide_id' @ ''.xml'';
          full_new_slide_path = path_join3 base_dir ''ppt'' new_slide_path;
          slides_dir = path_join3 base_dir ''ppt'' ''slides''
      in bind (ensure_dir (files st) slides_dir) (\<lambda>fs1.
         bind (copy2 fs1 full_add_slide_path full_new_slide_path) (\<lambda>fs2.
           process_slide_relationships uuid base_dir add_dir slide_path new_slide_path
             (st\<lparr>files := fs2,
                 max_slide_id := max_slide_id',
                 max_rel_id := max_rel_id',
                 new_slide_elems := new_slide_elems st @ [new_slide_elem root max_slide_id' max_rel_id'],
                 new_rel_elems := new_rel_elems st @ [new_rel_elem rels_root max_slide_id' max_rel_id']\<rparr>))))"

text \<open>
  The relationship of \<^verbatim>\<open>ppt/_rels/presentation.xml.rels\<close> of the added presentation
  whose \<^verbatim>\<open>Id\<close> is \<open>rid\<close> (the first one in document order).
\<close>

definition find_slide_rel :: "element \<Rightarrow> string option \<Rightarrow> element option" where
  "find_slide_rel add_rels_root rid =
     List.find (\<lambda>rel. get_attr rel ''Id'' = rid) (findall_with_attr add_rels_root ''Id'')"

definition copy_slide ::
  "(nat \<Rightarrow> string) \<Rightarrow> element \<Rightarrow> element \<Rightarrow> element \<Rightarrow> state \<Rightarrow> element \<Rightarrow> state result" where
  "copy_slide uuid root rels_root add_root st slide_id_elem =
     (let rid = get_attr slide_id_elem (''{'' @ get_namespace add_root ''r'' @ ''}id'');
          add_rels_path = path_join4 add_dir ''ppt'' ''_rels'' ''presentation.xml.rels''
      in bind (parse (files st) add_rels_path) (\<lambda>add_rels_root.
           case find_slide_rel add_rels_root rid of
             None \<Rightarrow> Inr st
           | Some slide_rel \<Rightarrow>
               (case get_attr slide_rel ''Target'' of
                  None \<Rightarrow> Inl (TypeError, files st)
                | Some slide_path \<Rightarrow>
                    if \<not> exists (files st) (path_join3 add_dir ''ppt'' slide_path) then Inr st
                    else add_slide uuid root rels_root st slide_path)))"

fun copy_slides ::
  "(nat \<Rightarrow> string) \<Rightarrow> element \<Rightarrow> element \<Rightarrow> element \<Rightarrow> state \<Rightarrow> element list \<Rightarrow> state result" where
  "copy_slides uuid root rels_root add_root st [] = Inr st"
| "copy_slides uuid root rels_root add_root st (slide_id_elem # rest) =
     bind (copy_slide uuid root rels_root add_root st slide_id_elem)
       (\<lambda>st'. copy_slides uuid root rels_root add_root st' rest)"

datatype message = No_slides_found | Successfully_merged string | Error_merging exn

text \<open>
  The watermarks: the highest \<^verbatim>\<open>id\<close> among the \<^verbatim>\<open>sldId\<close> children of the slide list
  (255 when there is none), and the highest number among the \<^verbatim>\<open>Id\<close> attributes of
  \<^verbatim>\<open>ppt/_rels/presentation.xml.rels\<close> (0 when there is none).
\<close>

definition seed_slide_id :: "filesystem \<Rightarrow> element \<Rightarrow> element \<Rightarrow> int result" where
  "seed_slide_id fs root slides_element =
     bind (map_result (\<lambda>slide_id. int_of_attr fs (get_attr slide_id ''id''))
             (findall_children slides_element (qname (get_namespace root ''p'') ''sldId'')))
       (\<lambda>slide_ids. Inr (max_or slide_ids 255))"

definition seed_rel_id :: "filesystem \<Rightarrow> element \<Rightarrow> int result" where
  "seed_rel_id fs rels_root =
     bind (map_result (rel_id_number fs) (findall_with_attr rels_root ''Id''))
       (\<lambda>rel_ids. Inr (max_or rel_ids 0))"

text \<open>The \<^verbatim>\<open>try\<close> block: the file system and what was printed, or the exception.\<close>

definition merge_try ::
  "(nat \<Rightarrow> string) \<Rightarrow> filesystem \<Rightarrow> string \<Rightarrow> string \<Rightarrow> string \<Rightarrow> (filesystem \<times> message list) result" where
  "merge_try uuid fs base_ppt_path add_ppt_path output_path =
     bind (ensure_dir fs temp_dir) (\<lambda>fs1.
     bind (ensure_dir fs1 base_dir) (\<lambda>fs2.
     bind (ensure_dir fs2 add_dir) (\<lambda>fs3.
     bind (extract_pptx fs3 base_ppt_path base_dir) (\<lambda>fs4.
     bind (extract_pptx fs4 add_ppt_path add_dir) (\<lambda>fs5.
       let presentation_xml_path = path_join3 base_dir ''ppt'' ''presentation.xml'';
           rels_path = path_join4 base_dir ''ppt'' ''_rels'' ''presentation.xml.rels'';
           add_pres_xml_path = path_join3 add_dir ''ppt'' ''presentation.xml''
       in
     bind (parse fs5 presentation_xml_path) (\<lambda>root.
     bind (find_slides_element fs5 root) (\<lambda>(slides_element, created).
     bind (seed_slide_id fs5 root slides_element) (\<lambda>max_slide_id0.
     bind (parse fs5 rels_path) (\<lambda>rels_root.
     bind (seed_rel_id fs5 rels_root) (\<lambda>max_rel_id0.
     bind (parse fs5 add_pres_xml_path) (\<lambda>add_root.
       case find_descendant add_root (qname (get_namespace add_root ''p'') ''sldIdLst'') of
         None \<Rightarrow> Inr (fs5, [No_slides_found])
       | Some add_slides_element \<Rightarrow>
           bind (copy_slides uuid root rels_root add_root
                   \<lparr>files = fs5, added_media = [], drawn = 0,
                    max_slide_id = max_slide_id0, max_rel_id = max_rel_id0,
                    new_slide_elems = [], new_rel_elems = []\<rparr>
                   (findall_children add_slides_element
                      (qname (get_namespace add_root ''p'') ''sldId''))) (\<lambda>st.
           bind (write_xml (files st) presentation_xml_path
                   (with_new_slides root created (new_slide_elems st))) (\<lambda>fs6.
           bind (write_xml fs6 rels_path (append_children (new_rel_elems st) rels_root)) (\<lambda>fs7.
           bind (update_content_types fs7 base_dir) (\<lambda>fs8.
           bind (create_pptx fs8 base_dir output_path) (\<lambda>fs9.
             Inr (fs9, [Successfully_merged output_path])))))))))))))))))"

text \<open>
  What a call leaves behind: the file system, the lines printed, and the exception that
  left the function, if any (only the \<^verbatim>\<open>finally\<close> block can raise one, since the
  \<^verbatim>\<open>except\<close> clause catches every exception of the \<^verbatim>\<open>try\<close> block).
\<close>

record outcome =
  final_files :: filesystem
  printed :: "message list"
  raised :: "exn option"

definition merge_presentations ::
  "(nat \<Rightarrow> string) \<Rightarrow> filesystem \<Rightarrow> string \<Rightarrow> string \<Rightarrow> string \<Rightarrow> outcome" where
  "merge_presentations uuid fs base_ppt_path add_ppt_path output_path =
     (let (fs1, out) =
            (case merge_try uuid fs base_ppt_path add_ppt_path output_path of
               Inr (fs', msgs) \<Rightarrow> (fs', msgs)
             | Inl (e, fs') \<Rightarrow> (fs', [Error_merging e]))
      in if exists fs1 temp_dir
         then (case rmtree fs1 temp_dir of
                 Inr fs2 \<Rightarrow> \<lparr>final_files = fs2, printed = out, raised = None\<rparr>
               | Inl (e, fs2) \<Rightarrow> \<lparr>final_files = fs2, printed = out, raised = Some e\<rparr>)
         else \<lparr>final_files = fs1, printed = out, raised = None\<rparr>)"

section \<open>mk2.py\<close>

text \<open>The base directory of this script is written \<open>base_dir2\<close>.\<close>

text \<open>
  \<^verbatim>\<open>root.find('.//p:sldIdLst', ns_dict)\<close> where \<^verbatim>\<open>ns_dict\<close> is empty when the root tag has
  no namespace: ElementPath then raises SyntaxError for the unbound prefix.
\<close>

definition root_ns :: "element \<Rightarrow> string option" where
  "root_ns root = (case match_braces (tag root) of Some ns \<Rightarrow> if ns \<noteq> [] then Some ns else None | None \<Rightarrow> None)"

definition find_prefixed :: "filesystem \<Rightarrow> string option \<Rightarrow> element \<Rightarrow> string \<Rightarrow> element option result" where
  "find_prefixed fs ns root local =
     (case ns of
        None \<Rightarrow> Inl (SyntaxError, fs)
      | Some uri \<Rightarrow> Inr (find_descendant root (qname uri local)))"

text \<open>\<^verbatim>\<open>elem.findall('.//p:sldId', ns_dict)\<close>: the descendants with that tag.\<close>

definition findall_descendants :: "element \<Rightarrow> string \<Rightarrow> element list" where
  "findall_descendants e t = filter (\<lambda>c. tag c = t) (descendants (children e))"

text \<open>\<^verbatim>\<open>int(slide.get('id', '0'))\<close> and the running maximum from 0.\<close>

definition highest_slide_id :: "filesystem \<Rightarrow> element list \<Rightarrow> int result" where
  "highest_slide_id fs slides =
     bind (map_result (\<lambda>slide. int_of_attr fs (Some (case get_attr slide ''id'' of Some v \<Rightarrow> v | None \<Rightarrow> ''0''))) slides)
       (\<lambda>ids. Inr (fold (\<lambda>id_val max_id. max max_id id_val) ids 0))"

text \<open>
  The highest number among the \<^verbatim>\<open>Id\<close> attributes of the form \<^verbatim>\<open>rId<n>\<close>; an id
  that does not start with \<^verbatim>\<open>rId\<close> or whose rest is not a number is passed over.
\<close>

definition highest_rel_id :: "element list \<Rightarrow> int" where
  "highest_rel_id rels =
     fold (\<lambda>rel max_rel_id.
             case get_attr rel ''Id'' of
               None \<Rightarrow> max_rel_id
             | Some rid \<Rightarrow>
                 if startswith rid ''rId''
                 then (case py_int (drop 3 rid) of Some rid_num \<Rightarrow> max max_rel_id rid_num | None \<Rightarrow> max_rel_id)
                 else max_rel_id)
       rels 0"

record state2 =
  files2 :: filesystem
  max_id :: int
  max_rel_id2 :: int
  new_slide_elems2 :: "element list"
  new_rel_elems2 :: "element list"

text \<open>
  \<^verbatim>\<open>rel_root.findall(f".//*[@Id='{old_rid}']")\<close>: a missing \<^verbatim>\<open>old_rid\<close> is formatted as
  \<^verbatim>\<open>None\<close>. For an id that contains a quote the predicate is not well-formed; the model
  raises SyntaxError there.
\<close>

definition findall_by_id :: "filesystem \<Rightarrow> element \<Rightarrow> string option \<Rightarrow> element list result" where
  "findall_by_id fs rel_root old_rid =
     (let v = (case old_rid of Some r \<Rightarrow> r | None \<Rightarrow> ''None'')
      in if CHR 0x27 \<in> set v then Inl (SyntaxError, fs)
         else Inr (filter (\<lambda>rel. get_attr rel ''Id'' = Some v) (descendants (children rel_root))))"

definition new_slide_elem2 :: "string \<Rightarrow> int \<Rightarrow> int \<Rightarrow> element" where
  "new_slide_elem2 ns i j =
     set_attr (''{'' @ ns @ ''}id'') (''rId'' @ str_int j)
       (set_attr ''id'' (str_int i) (Element (''{'' @ ns @ ''}sldId'') [] []))"

definition new_rel_elem2 :: "string \<Rightarrow> int \<Rightarrow> element" where
  "new_rel_elem2 slide_filename j =
     set_attr ''Target'' (''slides/'' @ slide_filename)
       (set_attr ''Type'' slide_rel_type
          (set_attr ''Id'' (''rId'' @ str_int j) (Element ''Relationship'' [] [])))"

text \<open>The body of the loop over the slides of the second presentation.\<close>

definition copy_slide2 :: "string \<Rightarrow> string \<Rightarrow> string \<Rightarrow> state2 \<Rightarrow> element \<Rightarrow> state2 result" where
  "copy_slide2 base_dir2 second_dir ns st slide_id =
     (let old_rid = get_attr slide_id (''{'' @ ns @ ''}id'');
          max_id' = max_id st + 1;
          max_rel_id' = max_rel_id2 st + 1;
          st1 = st\<lparr>max_id := max_id', max_rel_id2 := max_rel_id'\<rparr>;
          rel_file_path = path_join4 second_dir ''ppt'' ''_rels'' ''presentation.xml.rels'';
          slides_dir1 = path_join3 base_dir2 ''ppt'' ''slides'';
          slides_rels_dir1 = path_join slides_dir1 ''_rels''
      in bind (parse (files2 st) rel_file_path) (\<lambda>rel_root.
         bind (findall_by_id (files2 st) rel_root old_rid) (\<lambda>found.
           case (case found of [] \<Rightarrow> None | rel # rest \<Rightarrow> get_attr rel ''Target'') of
             None \<Rightarrow> Inr st1
           | Some slide_path \<Rightarrow>
               if slide_path = [] then Inr st1
               else
                 let slide_filename = basename slide_path;
                     old_slide_path = path_join3 second_dir ''ppt'' slide_path;
                     new_slide_path = path_join slides_dir1 slide_filename
                 in bind (copy2 (files2 st) old_slide_path new_slide_path) (\<lambda>fs1.
                      let old_slide_rels_dir = path_join (dirname old_slide_path) ''_rels'';
                          old_slide_rels_file = path_join old_slide_rels_dir (slide_filename @ ''.rels'')
                      in bind (if exists fs1 old_slide_rels_file
                               then copy2 fs1 old_slide_rels_file
                                      (path_join slides_rels_dir1 (slide_filename @ ''.rels''))
                               else Inr fs1) (\<lambda>fs2.
                           Inr (st1\<lparr>files2 := fs2,
                                    new_slide_elems2 := new_slide_elems2 st @ [new_slide_elem2 ns max_id' max_rel_id'],
                                    new_rel_elems2 := new_rel_elems2 st @ [new_rel_elem2 slide_filename max_rel_id']\<rparr>))))))"

fun copy_slides2 :: "string \<Rightarrow> string \<Rightarrow> string \<Rightarrow> state2 \<Rightarrow> element list \<Rightarrow> state2 result" where
  "copy_slides2 base_dir2 second_dir ns st [] = Inr st"
| "copy_slides2 base_dir2 second_dir ns st (slide_id # rest) =
     bind (copy_slide2 base_dir2 second_dir ns st slide_id)
       (\<lambda>st'. copy_slides2 base_dir2 second_dir ns st' rest)"

text \<open>\<^verbatim>\<open>shutil.copytree(src, dst)\<close> for a \<open>dst\<close> that does not exist.\<close>

definition copytree :: "filesystem \<Rightarrow> string \<Rightarrow> string \<Rightarrow> filesystem result" where
  "copytree fs src dst =
     (if exists fs dst then Inl (FileExistsError, fs)
      else bind (makedirs fs dst False) (\<lambda>fs1.
             Inr (fold (\<lambda>(k, n) acc.
                          if under (normpath src) k
                          then AList.update (normpath dst @ drop (length (normpath src)) k) n acc
                          else acc) fs fs1)))"

text \<open>The loop over the entries of a source folder (\<^verbatim>\<open>charts\<close>, \<^verbatim>\<open>media\<close>, ...).\<close>

fun copy_items :: "filesystem \<Rightarrow> string \<Rightarrow> string \<Rightarrow> string list \<Rightarrow> filesystem result" where
  "copy_items fs src_folder dst_folder [] = Inr fs"
| "copy_items fs src_folder dst_folder (item # items) =
     (let src_item = path_join src_folder item;
          dst_item = path_join dst_folder item
      in bind (if isfile fs src_item then copy2 fs src_item dst_item
               else if isdir fs src_item
               then (if \<not> exists fs dst_item then copytree fs src_item dst_item else Inr fs)
               else Inr fs)
           (\<lambda>fs'. copy_items fs' src_folder dst_folder items))"

fun copy_folders :: "filesystem \<Rightarrow> string \<Rightarrow> string \<Rightarrow> string list \<Rightarrow> filesystem result" where
  "copy_folders fs base_dir2 second_dir [] = Inr fs"
| "copy_folders fs base_dir2 second_dir (folder # folders) =
     (let src_folder = path_join3 second_dir ''ppt'' folder;
          dst_folder = path_join3 base_dir2 ''ppt'' folder
      in bind (if exists fs src_folder
               then bind (makedirs fs dst_folder True) (\<lambda>fs1.
                    bind (listdir fs1 src_folder) (\<lambda>items.
                      copy_items fs1 src_folder dst_folder items))
               else Inr fs)
           (\<lambda>fs'. copy_folders fs' base_dir2 second_dir folders))"

text \<open>The loop that copies the files of \<^verbatim>\<open>charts/_rels\<close>.\<close>

fun copy_files :: "filesystem \<Rightarrow> string \<Rightarrow> string \<Rightarrow> string list \<Rightarrow> filesystem result" where
  "copy_files fs src dst [] = Inr fs"
| "copy_files fs src dst (item # items) =
     bind (if isfile fs (path_join src item)
           then copy2 fs (path_join src item) (path_join dst item) else Inr fs)
       (\<lambda>fs'. copy_files fs' src dst items)"

text \<open>
  The merge of the content types: an element of the second document that has a
  \<^verbatim>\<open>PartName\<close> not among those of the first is appended to the first.
\<close>

definition merge_overrides :: "element \<Rightarrow> element \<Rightarrow> element" where
  "merge_overrides ct_root1 ct_root2 =
     (let existing_partnames = map (\<lambda>override. get_attr override ''PartName'')
                                 (findall_with_attr ct_root1 ''PartName'')
      in append_children
           (filter (\<lambda>override. get_attr override ''PartName'' \<notin> set existing_partnames)
              (findall_with_attr ct_root2 ''PartName''))
           ct_root1)"

text \<open>
  \<^verbatim>\<open>shutil.make_archive(output_path, 'zip', base_dir2)\<close>: the directories and the files below
  \<open>base_dir\<close>, by their relative names; a directory's name ends with a slash.
\<close>

definition archive_members :: "filesystem \<Rightarrow> string \<Rightarrow> (string \<times> content) list" where
  "archive_members fs root_dir =
     List.map_filter
       (\<lambda>(k, n). if under (normpath root_dir) k
                  then (case n of
                          File c \<Rightarrow> Some (drop (Suc (length (normpath root_dir))) k, c)
                        | Dir \<Rightarrow> Some (drop (Suc (length (normpath root_dir))) k @ ''/'', Raw []))
                  else None) fs"

definition remove :: "filesystem \<Rightarrow> string \<Rightarrow> filesystem result" where
  "remove fs p =
     (case node_at fs p of
        None \<Rightarrow> Inl (FileNotFoundError, fs)
      | Some Dir \<Rightarrow> Inl (IsADirectoryError, fs)
      | Some (File c) \<Rightarrow> Inr (AList.delete (normpath p) fs))"

text \<open>\<^verbatim>\<open>os.rename(src, dst)\<close> for a file \<open>src\<close>.\<close>

definition rename :: "filesystem \<Rightarrow> string \<Rightarrow> string \<Rightarrow> filesystem result" where
  "rename fs src dst =
     bind (read_file fs src) (\<lambda>c.
     bind (write_file fs dst c) (\<lambda>fs1.
       if normpath src = normpath dst then Inr fs1 else Inr (AList.delete (normpath src) fs1)))"

text \<open>
  \<open>merge_pptx_files\<close> of mk2.py. \<open>tmp\<close> is the directory that \<^verbatim>\<open>mkdtemp()\<close> makes. The
  function has no \<^verbatim>\<open>try\<close>: an exception leaves it at once, with the file system as it is.
\<close>

definition merge_pptx_files ::
  "string \<Rightarrow> filesystem \<Rightarrow> string \<Rightarrow> string \<Rightarrow> string \<Rightarrow> (filesystem \<times> string) result" where
  "merge_pptx_files tmp fs pptx1_path pptx2_path output_path =
     bind (mkdir fs tmp) (\<lambda>fs0.
       let base_dir2 = path_join tmp ''base'';
           second_dir = path_join tmp ''second'';
           pres1_xml_path = path_join3 base_dir2 ''ppt'' ''presentation.xml'';
           pres2_xml_path = path_join3 second_dir ''ppt'' ''presentation.xml'';
           rels_path = path_join4 base_dir2 ''ppt'' ''_rels'' ''presentation.xml.rels'';
           slides_dir1 = path_join3 base_dir2 ''ppt'' ''slides'';
           slides_rels_dir1 = path_join slides_dir1 ''_rels'';
           charts_rels_src = path_join4 second_dir ''ppt'' ''charts'' ''_rels'';
           charts_rels_dst = path_join4 base_dir2 ''ppt'' ''charts'' ''_rels'';
           content_types_path1 = path_join base_dir2 ''[Content_Types].xml'';
           content_types_path2 = path_join second_dir ''[Content_Types].xml''
       in
     bind (makedirs fs0 base_dir2 False) (\<lambda>fs1.
     bind (extract_pptx fs1 pptx1_path base_dir2) (\<lambda>fs2.
     bind (makedirs fs2 second_dir False) (\<lambda>fs3.
     bind (extract_pptx fs3 pptx2_path second_dir) (\<lambda>fs4.
     bind (parse fs4 pres1_xml_path) (\<lambda>root1.
     bind (parse fs4 pres2_xml_path) (\<lambda>root2.
     bind (find_prefixed fs4 (root_ns root1) root1 ''sldIdLst'') (\<lambda>slide_id_list1.
     bind (find_prefixed fs4 (root_ns root1) root2 ''sldIdLst'') (\<lambda>slide_id_list2.
       case (root_ns root1, slide_id_list1, slide_id_list2) of
         (Some ns, Some list1, Some list2) \<Rightarrow>
           bind (highest_slide_id fs4 (findall_descendants list1 (qname ns ''sldId''))) (\<lambda>max_id0.
           bind (parse fs4 rels_path) (\<lambda>rels_root.
           bind (makedirs fs4 slides_dir1 True) (\<lambda>fs5.
           bind (makedirs fs5 slides_rels_dir1 True) (\<lambda>fs6.
           bind (copy_slides2 base_dir2 second_dir ns
                   \<lparr>files2 = fs6, max_id = max_id0,
                    max_rel_id2 = highest_rel_id (findall_with_attr rels_root ''Id''),
                    new_slide_elems2 = [], new_rel_elems2 = []\<rparr>
                   (findall_descendants list2 (qname ns ''sldId''))) (\<lambda>st.
           bind (copy_folders (files2 st) base_dir2 second_dir
                   [''charts'', ''media'', ''embeddings'', ''theme'']) (\<lambda>fs7.
           bind (if exists fs7 charts_rels_src
                 then bind (makedirs fs7 charts_rels_dst True) (\<lambda>fs'.
                      bind (listdir fs' charts_rels_src) (\<lambda>items.
                        copy_files fs' charts_rels_src charts_rels_dst items))
                 else Inr fs7) (\<lambda>fs8.
           bind (parse fs8 content_types_path1) (\<lambda>ct_root1.
           bind (parse fs8 content_types_path2) (\<lambda>ct_root2.
           bind (write_xml fs8 pres1_xml_path
                   (Element (tag root1) (attrib root1)
                      (case append_into_first (qname ns ''sldIdLst'') (new_slide_elems2 st) (children root1) of
                         Some cs \<Rightarrow> cs | None \<Rightarrow> children root1))) (\<lambda>fs9.
           bind (write_xml fs9 rels_path (append_children (new_rel_elems2 st) rels_root)) (\<lambda>fs10.
           bind (write_xml fs10 content_types_path1 (merge_overrides ct_root1 ct_root2)) (\<lambda>fs11.
           bind (write_file fs11 (output_path @ ''.zip'') (Zip (archive_members fs11 base_dir2))) (\<lambda>fs12.
           bind (if exists fs12 (output_path @ ''.pptx'') then remove fs12 (output_path @ ''.pptx'')
                 else Inr fs12) (\<lambda>fs13.
           bind (rename fs13 (output_path @ ''.zip'') (output_path @ ''.pptx'')) (\<lambda>fs14.
           bind (rmtree fs14 tmp) (\<lambda>fs15.
             Inr (fs15, output_path @ ''.pptx'')))))))))))))))))
       | _ \<Rightarrow> Inl (ValueError, fs4))))))))))"

section \<open>Lemmas about the model\<close>

subsection \<open>Numbers and strings\<close>

lemma digit_char_props:
  assumes "d < 10"
  shows "is_digit (digit_char d)" and "digit_val (digit_char d) = d"
    and "\<not> is_space (digit_char d)" and "digit_char d \<noteq> CHR ''r''" and "digit_char d \<noteq> CHR ''-''"
  using digit_char_cases[OF assms]
  by (auto simp: digit_char_def is_digit_def digit_val_def is_space_def)

lemma str_nat_digits: "list_all is_digit (str_nat n)"
proof (induction n rule: str_nat.induct)
  case (1 n)
  show ?case
    by (subst str_nat.simps) (use 1 in \<open>auto simp: digit_char_props\<close>)
qed

lemma str_nat_nonempty: "str_nat n \<noteq> []"
  by (subst str_nat.simps) simp

text \<open>The value of a string of digits, as \<open>parse_digits\<close> computes it.\<close>

definition digits_value :: "nat \<Rightarrow> string \<Rightarrow> nat" where
  "digits_value acc ds = foldl (\<lambda>a c. 10 * a + digit_val c) acc ds"

lemma parse_digits_all:
  "list_all is_digit ds \<Longrightarrow> ds \<noteq> [] \<or> prev \<Longrightarrow> parse_digits acc prev ds = Some (digits_value acc ds)"
  by (induction ds arbitrary: acc prev) (auto simp: digits_value_def)

lemma digits_value_append: "digits_value acc (xs @ ys) = digits_value (digits_value acc xs) ys"
  by (simp add: digits_value_def)

lemma digits_value_str_nat: "digits_value acc (str_nat n) = acc * 10 ^ length (str_nat n) + n"
proof (induction n arbitrary: acc rule: str_nat.induct)
  case (1 n)
  show ?case
  proof (cases "n < 10")
    case True
    then show ?thesis
      by (subst (1 2) str_nat.simps) (simp add: digits_value_def digit_char_props)
  next
    case False
    have "digits_value acc (str_nat n) = 10 * digits_value acc (str_nat (n div 10)) + n mod 10"
      using False by (subst str_nat.simps) (simp add: digits_value_append, simp add: digits_value_def digit_char_props)
    also have "\<dots> = 10 * (acc * 10 ^ length (str_nat (n div 10)) + n div 10) + n mod 10"
      using 1[OF False] by simp
    also have "\<dots> = acc * 10 ^ length (str_nat n) + n"
      using False by (subst (2) str_nat.simps) (simp add: algebra_simps)
    finally show ?thesis .
  qed
qed

lemma strip_digits:
  assumes "list_all is_digit ds"
  shows "strip ds = ds"
proof (cases ds)
  case Nil
  then show ?thesis by (simp add: strip_def)
next
  case (Cons c cs)
  have ns: "\<And>x. is_digit x \<Longrightarrow> \<not> is_space x"
    by (auto simp: is_digit_def is_space_def Let_def)
  have "dropWhile is_space ds = ds"
    using assms Cons ns by simp
  moreover have "dropWhile is_space (rev ds) = rev ds"
  proof (cases "rev ds")
    case Nil
    then show ?thesis by simp
  next
    case (Cons y ys)
    then have "y \<in> set ds" by (metis list.set_intros(1) set_rev)
    then have "is_digit y" using assms by (simp add: list_all_iff)
    then show ?thesis using Cons ns by simp
  qed
  ultimately show ?thesis by (simp add: strip_def)
qed

lemma py_int_str_nat: "py_int (str_nat n) = Some (int n)"
proof -
  obtain c cs where c: "str_nat n = c # cs"
    using str_nat_nonempty by (cases "str_nat n") auto
  have d: "is_digit c" using str_nat_digits[of n] c by simp
  then have "c \<noteq> CHR ''-''" "c \<noteq> CHR ''+''" by (auto simp: is_digit_def)
  moreover have "parse_digits 0 False (c # cs) = Some n"
    using parse_digits_all[OF str_nat_digits, of n False 0] str_nat_nonempty[of n]
      digits_value_str_nat[of 0 n] c by simp
  ultimately show ?thesis
    using strip_digits[OF str_nat_digits, of n] c by (simp add: py_int_def)
qed

lemma strip_minus_digits:
  assumes "list_all is_digit ds" "ds \<noteq> []"
  shows "strip (CHR ''-'' # ds) = CHR ''-'' # ds"
proof -
  have ns: "\<And>x. is_digit x \<Longrightarrow> \<not> is_space x"
    by (auto simp: is_digit_def is_space_def Let_def)
  have m: "\<not> is_space CHR ''-''" by (simp add: is_space_def)
  obtain y ys where r: "rev ds = y # ys" using assms(2) by (cases "rev ds") auto
  then have "y \<in> set ds" by (metis list.set_intros(1) set_rev)
  then have "\<not> is_space y" using assms(1) ns by (simp add: list_all_iff)
  then have "dropWhile is_space (rev ds @ ''-'') = rev ds @ ''-''" using r by simp
  then show ?thesis using m by (simp add: strip_def)
qed

lemma py_int_str_int: "py_int (str_int i) = Some i"
proof (cases "i < 0")
  case False
  then show ?thesis by (simp add: str_int_def py_int_str_nat)
next
  case True
  have "parse_digits 0 False (str_nat (nat (- i))) = Some (nat (- i))"
    using parse_digits_all[OF str_nat_digits, of "nat (- i)" False 0] str_nat_nonempty
      digits_value_str_nat[of 0] by simp
  then show ?thesis
    using True strip_minus_digits[OF str_nat_digits str_nat_nonempty, of "nat (- i)"]
    by (simp add: str_int_def py_int_def)
qed

lemma str_int_inj: "str_int i = str_int j \<Longrightarrow> i = j"
  by (metis py_int_str_int option.inject)




subsection \<open>What the relationship processing leaves alone\<close>

lemma get_set_attr: "get_attr (set_attr k v e) k' = (if k' = k then Some v else get_attr e k')"
  by (simp add: get_attr_def set_attr_def update_conv')

lemma bind_eq_Inr: "bind m f = Inr y \<longleftrightarrow> (\<exists>x. m = Inr x \<and> f x = Inr y)"
  by (cases m) (simp_all add: bind_def)

lemma traverse_preserves:
  "(\<And>s e s' e'. f s e = Inr (s', e') \<Longrightarrow> g s' = g s) \<Longrightarrow> traverse f s es = Inr (s', es') \<Longrightarrow> g s' = g s"
proof (induction f s es arbitrary: s' es' rule: traverse.induct)
  case (1 f s)
  then show ?case by simp
next
  case (2 f s t a cs es)
  note step = "2.prems"(1)
  from "2.prems"(2) obtain s1 e1 s2 cs' s3 es1 where
    a: "f s (Element t a cs) = Inr (s1, e1)" and
    b: "traverse f s1 cs = Inr (s2, cs')" and
    c: "traverse f s2 es = Inr (s3, es1)" and d: "s' = s3"
    by (auto simp: bind_eq_Inr)
  have "g s1 = g s" using step a by blast
  moreover have "g s2 = g s1" using "2.IH"(1)[OF a refl _ b] step by blast
  moreover have "g s3 = g s2" using "2.IH"(2)[OF a refl b refl _ c] step by blast
  ultimately show ?case using d by simp
qed

text \<open>The part of the state that only the loop over the slides itself changes.\<close>

definition counters :: "state \<Rightarrow> int \<times> int \<times> element list \<times> element list" where
  "counters st = (max_slide_id st, max_rel_id st, new_slide_elems st, new_rel_elems st)"

lemma counters_upd [simp]:
  "counters (st\<lparr>files := x\<rparr>) = counters st"
  "counters (st\<lparr>drawn := d\<rparr>) = counters st"
  "counters (st\<lparr>added_media := m\<rparr>) = counters st"
  by (simp_all add: counters_def)

lemma process_chart_rel_counters:
  "process_chart_rel uuid b a st rel = Inr (st', rel') \<Longrightarrow> counters st' = counters st"
  by (auto simp: process_chart_rel_def bind_eq_Inr Let_def split: option.splits if_splits)

lemma process_chart_relationships_counters:
  assumes "process_chart_relationships uuid p q b a st = Inr st'"
  shows "counters st' = counters st"
proof (cases "exists (files st) p")
  case False
  with assms show ?thesis by (simp add: process_chart_relationships_def)
next
  case True
  with assms obtain rels_root st1 cs' fs' where
    t: "traverse (process_chart_rel uuid b a) st (children rels_root) = Inr (st1, cs')"
    and e: "st' = st1\<lparr>files := fs'\<rparr>"
    by (auto simp: process_chart_relationships_def bind_eq_Inr)
  have "counters st1 = counters st"
    by (rule traverse_preserves[OF _ t]) (rule process_chart_rel_counters)
  with e show ?thesis by simp
qed

lemma process_media_rel_counters:
  "process_media_rel b a sp st rel target = Inr (st', rel') \<Longrightarrow> counters st' = counters st"
  by (auto simp: process_media_rel_def bind_eq_Inr Let_def split: option.splits if_splits)

lemma process_chart_target_counters:
  "process_chart_target uuid b a sp st rel target = Inr (st', rel') \<Longrightarrow> counters st' = counters st"
  by (auto simp: process_chart_target_def bind_eq_Inr Let_def
      dest!: process_chart_relationships_counters split: if_splits)

lemma process_slide_rel_counters:
  "process_slide_rel uuid b a sp st rel = Inr (st', rel') \<Longrightarrow> counters st' = counters st"
  by (auto simp: process_slide_rel_def dest: process_media_rel_counters process_chart_target_counters
      split: option.splits if_splits)

lemma process_slide_relationships_counters:
  assumes "process_slide_relationships uuid b a sp nsp st = Inr st'"
  shows "counters st' = counters st"
proof -
  from assms obtain fs1 where
    r: "(if \<not> exists fs1 (path_join (path_join4 a ''ppt'' (dirname sp) ''_rels'') (basename sp @ ''.rels''))
         then Inr (st\<lparr>files := fs1\<rparr>)
         else bind (parse fs1 (path_join (path_join4 a ''ppt'' (dirname sp) ''_rels'') (basename sp @ ''.rels'')))
                (\<lambda>rels_root.
                bind (traverse (process_slide_rel uuid b a sp) (st\<lparr>files := fs1\<rparr>) (children rels_root)) (\<lambda>(st1, cs').
                bind (write_xml (files st1) (path_join (path_join4 b ''ppt'' (dirname nsp) ''_rels'') (basename nsp @ ''.rels''))
                        (Element (tag rels_root) (attrib rels_root) cs')) (\<lambda>fs'.
                  Inr (st1\<lparr>files := fs'\<rparr>))))) = Inr st'"
    by (auto simp: process_slide_relationships_def bind_eq_Inr Let_def)
  show ?thesis
  proof (cases "exists fs1 (path_join (path_join4 a ''ppt'' (dirname sp) ''_rels'') (basename sp @ ''.rels''))")
    case False
    with r show ?thesis by auto
  next
    case True
    with r obtain rels_root st1 cs' fs' where
      t: "traverse (process_slide_rel uuid b a sp) (st\<lparr>files := fs1\<rparr>) (children rels_root) = Inr (st1, cs')"
      and e: "st' = st1\<lparr>files := fs'\<rparr>"
      by (auto simp: bind_eq_Inr)
    have "counters st1 = counters (st\<lparr>files := fs1\<rparr>)"
      by (rule traverse_preserves[OF _ t]) (rule process_slide_rel_counters)
    with e show ?thesis by simp
  qed
qed

lemma add_slide_counters:
  assumes "add_slide uuid root rels_root st sp = Inr st'"
  shows "counters st' = (max_slide_id st + 1, max_rel_id st + 1,
            new_slide_elems st @ [new_slide_elem root (max_slide_id st + 1) (max_rel_id st + 1)],
            new_rel_elems st @ [new_rel_elem rels_root (max_slide_id st + 1) (max_rel_id st + 1)])"
  using assms
  by (auto simp: add_slide_def bind_eq_Inr Let_def
      dest!: process_slide_relationships_counters) (simp add: counters_def)

lemma copy_slide_counters:
  assumes "copy_slide uuid root rels_root add_root st e = Inr st'"
  shows "counters st' = counters st \<or>
         counters st' = (max_slide_id st + 1, max_rel_id st + 1,
            new_slide_elems st @ [new_slide_elem root (max_slide_id st + 1) (max_rel_id st + 1)],
            new_rel_elems st @ [new_rel_elem rels_root (max_slide_id st + 1) (max_rel_id st + 1)])"
  using assms
  by (auto simp: copy_slide_def bind_eq_Inr Let_def
      dest!: add_slide_counters split: option.splits if_splits)

subsection \<open>The counters of the loop\<close>

lemma copy_slides_counters:
  "copy_slides uuid root rels_root add_root st es = Inr st' \<Longrightarrow>
   \<exists>n\<le>length es. counters st' =
     (max_slide_id st + int n, max_rel_id st + int n,
      new_slide_elems st @
        map (\<lambda>k. new_slide_elem root (max_slide_id st + 1 + int k) (max_rel_id st + 1 + int k)) [0..<n],
      new_rel_elems st @
        map (\<lambda>k. new_rel_elem rels_root (max_slide_id st + 1 + int k) (max_rel_id st + 1 + int k)) [0..<n])"
proof (induction es arbitrary: st)
  case Nil
  then show ?case by (auto simp: counters_def)
next
  case (Cons e es)
  from Cons.prems obtain st1 where
    a: "copy_slide uuid root rels_root add_root st e = Inr st1" and
    b: "copy_slides uuid root rels_root add_root st1 es = Inr st'"
    by (auto simp: bind_eq_Inr)
  from Cons.IH[OF b] obtain n where n: "n \<le> length es" and
    c: "counters st' =
     (max_slide_id st1 + int n, max_rel_id st1 + int n,
      new_slide_elems st1 @
        map (\<lambda>k. new_slide_elem root (max_slide_id st1 + 1 + int k) (max_rel_id st1 + 1 + int k)) [0..<n],
      new_rel_elems st1 @
        map (\<lambda>k. new_rel_elem rels_root (max_slide_id st1 + 1 + int k) (max_rel_id st1 + 1 + int k)) [0..<n])"
    by blast
  from copy_slide_counters[OF a] show ?case
  proof
    assume "counters st1 = counters st"
    then show ?thesis using c n by (intro exI[of _ n]) (auto simp: counters_def)
  next
    assume d: "counters st1 = (max_slide_id st + 1, max_rel_id st + 1,
            new_slide_elems st @ [new_slide_elem root (max_slide_id st + 1) (max_rel_id st + 1)],
            new_rel_elems st @ [new_rel_elem rels_root (max_slide_id st + 1) (max_rel_id st + 1)])"
    have m: "\<And>f. map f [0..<Suc n] = f 0 # map (\<lambda>k. f (Suc k)) [0..<n]"
      by (simp only: upt_conv_Cons[OF zero_less_Suc] list.map map_Suc_upt[symmetric] map_map comp_def)
    show ?thesis using c n d
      by (intro exI[of _ "Suc n"]) (auto simp: counters_def m add.assoc simp del: upt_Suc)
  qed
qed

lemma new_slide_elem_id [simp]: "get_attr (new_slide_elem root i j) ''id'' = Some (str_int i)"
  by (simp add: new_slide_elem_def get_set_attr)

lemma new_slide_elem_rid [simp]:
  "get_attr (new_slide_elem root i j) (''{'' @ get_namespace root ''r'' @ ''}id'') = Some (''rId'' @ str_int j)"
  by (simp add: new_slide_elem_def get_set_attr)

lemma new_rel_elem_attrs [simp]:
  "get_attr (new_rel_elem rels_root i j) ''Id'' = Some (''rId'' @ str_int j)"
  "get_attr (new_rel_elem rels_root i j) ''Type'' = Some slide_rel_type"
  "get_attr (new_rel_elem rels_root i j) ''Target'' = Some (''slides/slide'' @ str_int i @ ''.xml'')"
  by (simp_all add: new_rel_elem_def get_set_attr)




section \<open>A worked example\<close>

text \<open>
  The staging directory after two small packages were extracted. The base presentation has one slide, with id 256, stored as
  \<^verbatim>\<open>ppt/slides/slide257.xml\<close>; its content types declare \<^verbatim>\<open>png\<close> as \<^verbatim>\<open>image/png\<close>. The
  presentation to be added lists three slides: the first refers to a relationship id that
  its relationships do not have, the other two share a picture and a chart, and the
  second also refers to a picture that is missing from the package; its content types
  declare \<^verbatim>\<open>png\<close> as \<^verbatim>\<open>image/x-png\<close>. The slide list entries carry their relationship
  id under the attribute name that the script looks up.
\<close>

definition ex_pns :: string where
  "ex_pns = ''http://schemas.openxmlformats.org/presentationml/2006/main''"

definition ex_rkey :: string where
  "ex_rkey = ''{http://schemas.openxmlformats.org/officeDocument/2006/main}id''"

definition ex_relns :: string where
  "ex_relns = ''http://schemas.openxmlformats.org/package/2006/relationships''"

definition ex_image_type :: string where
  "ex_image_type = ''http://schemas.openxmlformats.org/officeDocument/2006/relationships/image''"

definition ex_chart_type :: string where
  "ex_chart_type = ''http://schemas.openxmlformats.org/officeDocument/2006/relationships/chart''"

definition ex_layout_type :: string where
  "ex_layout_type = ''http://schemas.openxmlformats.org/officeDocument/2006/relationships/slideLayout''"

definition ex_sld :: "string \<Rightarrow> string \<Rightarrow> element" where
  "ex_sld i r = Element (''{'' @ ex_pns @ ''}sldId'') [(''id'', i), (ex_rkey, r)] []"

definition ex_presentation :: "element list \<Rightarrow> element" where
  "ex_presentation slds =
     Element (''{'' @ ex_pns @ ''}presentation'') [] [Element (''{'' @ ex_pns @ ''}sldIdLst'') [] slds]"

definition ex_rel :: "string \<Rightarrow> string \<Rightarrow> string \<Rightarrow> element" where
  "ex_rel i ty target =
     Element (''{'' @ ex_relns @ ''}Relationship'') [(''Id'', i), (''Type'', ty), (''Target'', target)] []"

definition ex_rels :: "element list \<Rightarrow> element" where
  "ex_rels rs = Element (''{'' @ ex_relns @ ''}Relationships'') [] rs"

definition ex_default :: "string \<Rightarrow> string \<Rightarrow> element" where
  "ex_default ext mime = Element (''{'' @ ct_ns @ ''}Default'') [(''Extension'', ext), (''ContentType'', mime)] []"


definition ex_types :: "element list \<Rightarrow> element" where
  "ex_types ds = Element (''{'' @ ct_ns @ ''}Types'') [] ds"

definition ex_base_root :: element where
  "ex_base_root = ex_presentation [ex_sld ''256'' ''rId1'']"

definition ex_base_rels :: element where
  "ex_base_rels = ex_rels [ex_rel ''rId1'' slide_rel_type ''slides/slide257.xml'']"

definition ex_base_slide_rels :: element where
  "ex_base_slide_rels = ex_rels [ex_rel ''rId2'' ex_layout_type ''../slideLayouts/slideLayout1.xml'']"

definition ex_add_root :: element where
  "ex_add_root = ex_presentation [ex_sld ''256'' ''rId9'', ex_sld ''257'' ''rId2'', ex_sld ''258'' ''rId3'']"

definition ex_add_rels :: element where
  "ex_add_rels = ex_rels [ex_rel ''rId2'' slide_rel_type ''slides/slide1.xml'',
                          ex_rel ''rId3'' slide_rel_type ''slides/slide2.xml'']"

definition ex_slide1_rels :: element where
  "ex_slide1_rels = ex_rels [ex_rel ''rId1'' ex_image_type ''../media/image7.png'',
                             ex_rel ''rId2'' ex_chart_type ''../charts/chart1.xml'']"

definition ex_slide2_rels :: element where
  "ex_slide2_rels = ex_rels [ex_rel ''rId1'' ex_image_type ''../media/image7.png'',
                             ex_rel ''rId2'' ex_image_type ''../media/image8.png'',
                             ex_rel ''rId3'' ex_chart_type ''../charts/chart1.xml'']"

definition ex_fs5 :: filesystem where
  "ex_fs5 =
     [(''temp_ppt_merge'', Dir),
      (''temp_ppt_merge/base'', Dir),
      (''temp_ppt_merge/add'', Dir),
      (''temp_ppt_merge/base/[Content_Types].xml'', File (Xml (ex_types [ex_default ''png'' ''image/png'']))),
      (''temp_ppt_merge/base/ppt'', Dir),
      (''temp_ppt_merge/base/ppt/presentation.xml'', File (Xml ex_base_root)),
      (''temp_ppt_merge/base/ppt/_rels'', Dir),
      (''temp_ppt_merge/base/ppt/_rels/presentation.xml.rels'', File (Xml ex_base_rels)),
      (''temp_ppt_merge/base/ppt/slides'', Dir),
      (''temp_ppt_merge/base/ppt/slides/slide257.xml'', File (Raw ''base-slide'')),
      (''temp_ppt_merge/base/ppt/slides/_rels'', Dir),
      (''temp_ppt_merge/base/ppt/slides/_rels/slide257.xml.rels'', File (Xml ex_base_slide_rels)),
      (''temp_ppt_merge/add/[Content_Types].xml'', File (Xml (ex_types [ex_default ''png'' ''image/x-png'']))),
      (''temp_ppt_merge/add/ppt'', Dir),
      (''temp_ppt_merge/add/ppt/presentation.xml'', File (Xml ex_add_root)),
      (''temp_ppt_merge/add/ppt/_rels'', Dir),
      (''temp_ppt_merge/add/ppt/_rels/presentation.xml.rels'', File (Xml ex_add_rels)),
      (''temp_ppt_merge/add/ppt/slides'', Dir),
      (''temp_ppt_merge/add/ppt/slides/slide1.xml'', File (Raw ''first-slide'')),
      (''temp_ppt_merge/add/ppt/slides/slide2.xml'', File (Raw ''second-slide'')),
      (''temp_ppt_merge/add/ppt/slides/_rels'', Dir),
      (''temp_ppt_merge/add/ppt/slides/_rels/slide1.xml.rels'', File (Xml ex_slide1_rels)),
      (''temp_ppt_merge/add/ppt/slides/_rels/slide2.xml.rels'', File (Xml ex_slide2_rels)),
      (''temp_ppt_merge/add/ppt/media'', Dir),
      (''temp_ppt_merge/add/ppt/media/image7.png'', File (Raw ''picture'')),
      (''temp_ppt_merge/add/ppt/charts'', Dir),
      (''temp_ppt_merge/add/ppt/charts/chart1.xml'', File (Raw ''chart''))]"

text \<open>The values drawn from the UUID generator in the example: 00000000, 00000001, ...\<close>

definition ex_uuid :: "nat \<Rightarrow> string" where
  "ex_uuid n = ''0000000'' @ str_nat n"

text \<open>The state before the loop (the watermarks are those of the base presentation) and after it.\<close>

definition ex_st0 :: state where
  "ex_st0 = \<lparr>files = ex_fs5, added_media = [], drawn = 0, max_slide_id = 256, max_rel_id = 1,
             new_slide_elems = [], new_rel_elems = []\<rparr>"

definition ex_es :: "element list" where
  "ex_es = [ex_sld ''256'' ''rId9'', ex_sld ''257'' ''rId2'', ex_sld ''258'' ''rId3'']"

definition ex_new_slide1_rels :: element where
  "ex_new_slide1_rels = ex_rels [ex_rel ''rId1'' ex_image_type ''../media/image1.png'',
                                 ex_rel ''rId2'' ex_chart_type ''../charts/chart00000000.xml'']"

definition ex_new_slide2_rels :: element where
  "ex_new_slide2_rels = ex_rels [ex_rel ''rId1'' ex_image_type ''../media/image1.png'',
                                 ex_rel ''rId2'' ex_image_type ''../media/image2.png'',
                                 ex_rel ''rId3'' ex_chart_type ''../charts/chart00000001.xml'']"

definition ex_fs6 :: filesystem where
  "ex_fs6 =
     [(''temp_ppt_merge'', Dir),
      (''temp_ppt_merge/base'', Dir),
      (''temp_ppt_merge/add'', Dir),
      (''temp_ppt_merge/base/[Content_Types].xml'', File (Xml (ex_types [ex_default ''png'' ''image/png'']))),
      (''temp_ppt_merge/base/ppt'', Dir),
      (''temp_ppt_merge/base/ppt/presentation.xml'', File (Xml ex_base_root)),
      (''temp_ppt_merge/base/ppt/_rels'', Dir),
      (''temp_ppt_merge/base/ppt/_rels/presentation.xml.rels'', File (Xml ex_base_rels)),
      (''temp_ppt_merge/base/ppt/slides'', Dir),
      (''temp_ppt_merge/base/ppt/slides/slide257.xml'', File (Raw ''first-slide'')),
      (''temp_ppt_merge/base/ppt/slides/_rels'', Dir),
      (''temp_ppt_merge/base/ppt/slides/_rels/slide257.xml.rels'', File (Xml ex_new_slide1_rels)),
      (''temp_ppt_merge/add/[Content_Types].xml'', File (Xml (ex_types [ex_default ''png'' ''image/x-png'']))),
      (''temp_ppt_merge/add/ppt'', Dir),
      (''temp_ppt_merge/add/ppt/presentation.xml'', File (Xml ex_add_root)),
      (''temp_ppt_merge/add/ppt/_rels'', Dir),
      (''temp_ppt_merge/add/ppt/_rels/presentation.xml.rels'', File (Xml ex_add_rels)),
      (''temp_ppt_merge/add/ppt/slides'', Dir),
      (''temp_ppt_merge/add/ppt/slides/slide1.xml'', File (Raw ''first-slide'')),
      (''temp_ppt_merge/add/ppt/slides/slide2.xml'', File (Raw ''second-slide'')),
      (''temp_ppt_merge/add/ppt/slides/_rels'', Dir),
      (''temp_ppt_merge/add/ppt/slides/_rels/slide1.xml.rels'', File (Xml ex_slide1_rels)),
      (''temp_ppt_merge/add/ppt/slides/_rels/slide2.xml.rels'', File (Xml ex_slide2_rels)),
      (''temp_ppt_merge/add/ppt/media'', Dir),
      (''temp_ppt_merge/add/ppt/media/image7.png'', File (Raw ''picture'')),
      (''temp_ppt_merge/add/ppt/charts'', Dir),
      (''temp_ppt_merge/add/ppt/charts/chart1.xml'', File (Raw ''chart'')),
      (''temp_ppt_merge/base/ppt/media'', Dir),
      (''temp_ppt_merge/base/ppt/media/image1.png'', File (Raw ''picture'')),
      (''temp_ppt_merge/base/ppt/charts'', Dir),
      (''temp_ppt_merge/base/ppt/charts/chart00000000.xml'', File (Raw ''chart'')),
      (''temp_ppt_merge/base/ppt/charts/_rels'', Dir),
      (''temp_ppt_merge/base/ppt/slides/slide258.xml'', File (Raw ''second-slide'')),
      (''temp_ppt_merge/base/ppt/charts/chart00000001.xml'', File (Raw ''chart'')),
      (''temp_ppt_merge/base/ppt/slides/_rels/slide258.xml.rels'', File (Xml ex_new_slide2_rels))]"

definition ex_st1 :: state where
  "ex_st1 = \<lparr>files = ex_fs6,
             added_media = [(''media/image7.png'', ''media/image1.png''),
                            (''media/image8.png'', ''media/image2.png'')],
             drawn = 2, max_slide_id = 258, max_rel_id = 3,
             new_slide_elems = [ex_sld ''257'' ''rId2'', ex_sld ''258'' ''rId3''],
             new_rel_elems = [ex_rel ''rId2'' slide_rel_type ''slides/slide257.xml'',
                              ex_rel ''rId3'' slide_rel_type ''slides/slide258.xml'']\<rparr>"










text \<open>Two packages for mk2.py: the second has no slide list.\<close>

definition ex2_fs :: filesystem where
  "ex2_fs =
     [(''/tmp'', Dir),
      (''one.pptx'', File (Zip [(''ppt/presentation.xml'', Xml (ex_presentation []))])),
      (''two.pptx'', File (Zip [(''ppt/presentation.xml'', Xml (Element (''{'' @ ex_pns @ ''}presentation'') [] []))]))]"

definition ex2_left :: filesystem where
  "ex2_left =
     ex2_fs @
     [(''/tmp/tmpk3'', Dir),
      (''/tmp/tmpk3/base'', Dir),
      (''/tmp/tmpk3/base/ppt'', Dir),
      (''/tmp/tmpk3/base/ppt/presentation.xml'', File (Xml (ex_presentation []))),
      (''/tmp/tmpk3/second'', Dir),
      (''/tmp/tmpk3/second/ppt'', Dir),
      (''/tmp/tmpk3/second/ppt/presentation.xml'', File (Xml (Element (''{'' @ ex_pns @ ''}presentation'') [] [])))]"





text \<open>
  A second sequence of values for the UUID generator, and the staging directory of the
  first example after the chart of its first slide was copied under the name \<open>name\<close>.
\<close>

definition ex_uuid2 :: "nat \<Rightarrow> string" where
  "ex_uuid2 n = ''fffffff'' @ str_nat n"

definition ex4_files :: "string \<Rightarrow> filesystem" where
  "ex4_files name =
     ex_fs5 @
     [(''temp_ppt_merge/base/ppt/charts'', Dir),
      (''temp_ppt_merge/base/ppt/charts/'' @ name, File (Raw ''chart'')),
      (''temp_ppt_merge/base/ppt/charts/_rels'', Dir)]"

text \<open>The state of the first example after the picture of its first slide was copied.\<close>

definition ex5_st :: state where
  "ex5_st = \<lparr>files = ex_fs5 @
                 [(''temp_ppt_merge/base/ppt/media'', Dir),
                  (''temp_ppt_merge/base/ppt/media/image1.png'', File (Raw ''picture''))],
             added_media = [(''media/image7.png'', ''media/image1.png'')],
             drawn = 0, max_slide_id = 256, max_rel_id = 1,
             new_slide_elems = [], new_rel_elems = []\<rparr>"

subsection \<open>The file system\<close>

lemma node_at_update:
  assumes "q \<noteq> []"
  shows "node_at (AList.update (normpath p) n fs) q =
           (if normpath q = normpath p \<and> normpath p \<noteq> ''.'' \<and> normpath p \<noteq> ''/'' \<and> normpath p \<noteq> ''//''
            then Some n else node_at fs q)"
  using assms by (auto simp: node_at_def update_conv' Let_def)

lemma node_at_empty [simp]: "node_at fs [] = None"
  by (simp add: node_at_def)

lemma node_at_special:
  "p \<noteq> [] \<Longrightarrow> normpath p = ''.'' \<or> normpath p = ''/'' \<or> normpath p = ''//'' \<Longrightarrow> node_at fs p = Some Dir"
  by (auto simp: node_at_def Let_def)

lemma write_file_node_at:
  assumes "write_file fs p c = Inr fs'"
  shows "node_at fs' q = (if q \<noteq> [] \<and> normpath q = normpath p then Some (File c) else node_at fs q)"
proof (cases "q = []")
  case True
  then show ?thesis by simp
next
  case False
  from assms have p: "p \<noteq> []" "\<not> isdir fs p" and fs': "fs' = AList.update (normpath p) (File c) fs"
    by (auto simp: write_file_def split: if_splits option.splits node.splits)
  from p have "normpath p \<noteq> ''.'' \<and> normpath p \<noteq> ''/'' \<and> normpath p \<noteq> ''//''"
    using node_at_special[of p fs] by (auto simp: isdir_def)
  then show ?thesis using False fs' by (simp add: node_at_update)
qed

lemma mkdir_node_at:
  assumes "mkdir fs p = Inr fs'"
  shows "node_at fs' q = (if q \<noteq> [] \<and> normpath q = normpath p then Some Dir else node_at fs q)"
proof (cases "q = []")
  case True
  then show ?thesis by simp
next
  case False
  from assms have p: "p \<noteq> []" "\<not> exists fs p" and fs': "fs' = AList.update (normpath p) Dir fs"
    by (auto simp: mkdir_def split: if_splits option.splits node.splits)
  from p have "normpath p \<noteq> ''.'' \<and> normpath p \<noteq> ''/'' \<and> normpath p \<noteq> ''//''"
    using node_at_special[of p fs] by (auto simp: exists_def)
  then show ?thesis using False fs' by (simp add: node_at_update)
qed

lemma node_at_cong: "q \<noteq> [] \<Longrightarrow> p \<noteq> [] \<Longrightarrow> normpath q = normpath p \<Longrightarrow> node_at fs q = node_at fs p"
  by (simp add: node_at_def)

text \<open>
  Nothing is removed while the slides are copied: a file stays a file and a directory
  stays a directory.
\<close>

definition grows :: "filesystem \<Rightarrow> filesystem \<Rightarrow> bool" where
  "grows fs fs' = (\<forall>p. (isfile fs p \<longrightarrow> isfile fs' p) \<and> (isdir fs p \<longrightarrow> isdir fs' p))"

lemma grows_refl [simp]: "grows fs fs"
  by (simp add: grows_def)

lemma grows_trans: "grows fs fs1 \<Longrightarrow> grows fs1 fs2 \<Longrightarrow> grows fs fs2"
  by (simp add: grows_def)

lemma grows_exists: "grows fs fs' \<Longrightarrow> exists fs p \<Longrightarrow> exists fs' p"
proof -
  assume g: "grows fs fs'" and e: "exists fs p"
  then obtain n where n: "node_at fs p = Some n" by (auto simp: exists_def)
  show ?thesis
  proof (cases n)
    case Dir
    with n g have "isdir fs' p" by (simp add: grows_def isdir_def)
    then show ?thesis by (simp add: isdir_def exists_def)
  next
    case (File c)
    with n g have "isfile fs' p" by (auto simp: grows_def isfile_def)
    then show ?thesis by (auto simp: isfile_def exists_def split: option.splits)
  qed
qed

lemma mkdir_grows: "mkdir fs p = Inr fs' \<Longrightarrow> grows fs fs'"
proof -
  assume a: "mkdir fs p = Inr fs'"
  then have ne: "\<not> exists fs p" "p \<noteq> []"
    by (auto simp: mkdir_def split: if_splits)
  have "\<And>q. node_at fs q \<noteq> None \<Longrightarrow> node_at fs' q = node_at fs q"
  proof -
    fix q assume q: "node_at fs q \<noteq> None"
    then have "q \<noteq> []" by auto
    moreover have "normpath q \<noteq> normpath p"
      using q ne node_at_cong[of q p fs] calculation by (auto simp: exists_def)
    ultimately show "node_at fs' q = node_at fs q"
      using mkdir_node_at[OF a] by simp
  qed
  then show ?thesis
    by (auto simp: grows_def isfile_def isdir_def split: option.splits node.splits)
qed

lemma write_file_grows: "write_file fs p c = Inr fs' \<Longrightarrow> grows fs fs'"
proof -
  assume a: "write_file fs p c = Inr fs'"
  then have nd: "\<not> isdir fs p" "p \<noteq> []"
    by (auto simp: write_file_def split: if_splits)
  have f: "\<And>q. isfile fs q \<Longrightarrow> isfile fs' q"
    using write_file_node_at[OF a] by (auto simp: isfile_def split: option.splits node.splits)
  have d: "\<And>q. isdir fs q \<Longrightarrow> isdir fs' q"
  proof -
    fix q assume q: "isdir fs q"
    then have "q \<noteq> []" by (auto simp: isdir_def)
    moreover have "normpath q \<noteq> normpath p"
      using q nd node_at_cong[of q p fs] calculation by (auto simp: isdir_def)
    ultimately show "isdir fs' q"
      using write_file_node_at[OF a] q by (simp add: isdir_def)
  qed
  show ?thesis using f d by (simp add: grows_def)
qed

lemma read_file_same: "read_file fs p = Inr c \<Longrightarrow> node_at fs p = Some (File c)"
  by (auto simp: read_file_def split: option.splits node.splits)

lemma copy2_grows: "copy2 fs src dst = Inr fs' \<Longrightarrow> grows fs fs'"
  by (auto simp: copy2_def Let_def bind_eq_Inr split: if_splits dest: write_file_grows)

lemma make_missing_grows: "make_missing fs as = Inr fs' \<Longrightarrow> grows fs fs'"
proof (induction as arbitrary: fs)
  case Nil
  then show ?case by simp
next
  case (Cons a as)
  then show ?case
    by (auto simp: bind_eq_Inr split: if_splits dest!: mkdir_grows intro: grows_trans)
qed

lemma makedirs_grows: "makedirs fs name ok = Inr fs' \<Longrightarrow> grows fs fs'"
proof -
  assume "makedirs fs name ok = Inr fs'"
  then obtain fs1 where a: "make_missing fs (butlast (ancestors name)) = Inr fs1"
    and b: "(case mkdir fs1 name of Inr fs'' \<Rightarrow> Inr fs''
             | Inl e \<Rightarrow> if \<not> ok \<or> \<not> isdir fs1 name then Inl e else Inr fs1) = Inr fs'"
    by (auto simp: makedirs_def bind_eq_Inr)
  have "grows fs1 fs'"
    using b by (cases "mkdir fs1 name") (auto dest: mkdir_grows split: if_splits)
  then show ?thesis using make_missing_grows[OF a] grows_trans by blast
qed

lemma ensure_dir_grows: "ensure_dir fs d = Inr fs' \<Longrightarrow> grows fs fs'"
  by (auto simp: ensure_dir_def split: if_splits dest: makedirs_grows)

text \<open>The directories that \<open>ensure_dir\<close> makes are the directory asked for and those above it.\<close>

lemma make_missing_new:
  "make_missing fs as = Inr fs' \<Longrightarrow> node_at fs' q = node_at fs q \<or> normpath q \<in> normpath ` set as"
proof (induction as arbitrary: fs)
  case Nil
  then show ?case by simp
next
  case (Cons a as)
  show ?case
  proof (cases "exists fs a")
    case True
    with Cons show ?thesis by auto
  next
    case False
    with Cons.prems obtain fs1 where m: "mkdir fs a = Inr fs1" and r: "make_missing fs1 as = Inr fs'"
      by (auto simp: bind_eq_Inr)
    from Cons.IH[OF r] mkdir_node_at[OF m, of q] show ?thesis
      by (auto split: if_splits)
  qed
qed

lemma ensure_dir_new:
  assumes "ensure_dir fs d = Inr fs'"
  shows "node_at fs' q = node_at fs q \<or> normpath q \<in> normpath ` set (ancestors d) \<or> normpath q = normpath d"
proof (cases "exists fs d")
  case True
  with assms show ?thesis by (simp add: ensure_dir_def)
next
  case False
  with assms obtain fs1 where a: "make_missing fs (butlast (ancestors d)) = Inr fs1"
    and b: "(case mkdir fs1 d of Inr fs'' \<Rightarrow> Inr fs''
             | Inl e \<Rightarrow> if \<not> False \<or> \<not> isdir fs1 d then Inl e else Inr fs1) = Inr fs'"
    by (auto simp: ensure_dir_def makedirs_def bind_eq_Inr)
  from b obtain m: "mkdir fs1 d = Inr fs'"
    by (cases "mkdir fs1 d") auto
  from make_missing_new[OF a, of q] mkdir_node_at[OF m, of q] show ?thesis
    by (auto split: if_splits dest: in_set_butlastD)
qed

lemma ensure_dir_isdir:
  assumes "ensure_dir fs d = Inr fs'"
  shows "isdir fs' d \<or> (exists fs d \<and> fs' = fs)"
proof (cases "exists fs d")
  case True
  with assms show ?thesis by (simp add: ensure_dir_def)
next
  case False
  with assms obtain fs1 where
    b: "(case mkdir fs1 d of Inr fs'' \<Rightarrow> Inr fs''
         | Inl e \<Rightarrow> if \<not> False \<or> \<not> isdir fs1 d then Inl e else Inr fs1) = Inr fs'"
    by (auto simp: ensure_dir_def makedirs_def bind_eq_Inr)
  from b obtain m: "mkdir fs1 d = Inr fs'"
    by (cases "mkdir fs1 d") auto
  then have "d \<noteq> []" by (auto simp: mkdir_def split: if_splits)
  then show ?thesis using mkdir_node_at[OF m, of d] by (simp add: isdir_def)
qed

text \<open>What \<open>copy2\<close> writes, when the destination is not a directory.\<close>

lemma copy2_node_at:
  assumes "copy2 fs src dst = Inr fs'" and "\<not> isdir fs dst"
  shows "\<exists>c. node_at fs src = Some (File c) \<and>
             (\<forall>q. node_at fs' q = (if q \<noteq> [] \<and> normpath q = normpath dst then Some (File c) else node_at fs q))"
proof -
  from assms obtain c where r: "read_file fs src = Inr c" and w: "write_file fs dst c = Inr fs'"
    by (auto simp: copy2_def Let_def bind_eq_Inr split: if_splits)
  show ?thesis
    using read_file_same[OF r] write_file_node_at[OF w] by blast
qed

subsection \<open>What the loop keeps\<close>

lemma traverse_rel:
  "(\<And>s. R s s) \<Longrightarrow> (\<And>a b c. R a b \<Longrightarrow> R b c \<Longrightarrow> R a c) \<Longrightarrow>
   (\<And>s e s' e'. f s e = Inr (s', e') \<Longrightarrow> R s s') \<Longrightarrow>
   traverse f s es = Inr (s', es') \<Longrightarrow> R s s'"
proof (induction f s es arbitrary: s' es' rule: traverse.induct)
  case (1 f s)
  then show ?case by simp
next
  case (2 f s t a cs es)
  note step = "2.prems"(3)
  from "2.prems"(4) obtain s1 e1 s2 cs' s3 es1 where
    a: "f s (Element t a cs) = Inr (s1, e1)" and
    b: "traverse f s1 cs = Inr (s2, cs')" and
    c: "traverse f s2 es = Inr (s3, es1)" and d: "s' = s3"
    by (auto simp: bind_eq_Inr)
  have "R s s1" using step a by blast
  moreover have "R s1 s2"
    by (rule "2.IH"(1)[OF a refl "2.prems"(1) "2.prems"(2) "2.prems"(3) b])
  moreover have "R s2 s3"
    by (rule "2.IH"(2)[OF a refl b refl "2.prems"(1) "2.prems"(2) "2.prems"(3) c])
  ultimately show ?case using d "2.prems"(2) by blast
qed

text \<open>
  From one state of the merge to a later one: the file system has grown, the entries of
  \<open>added_media\<close> are kept, and the number of values drawn has not gone down.
\<close>

definition extends :: "state \<Rightarrow> state \<Rightarrow> bool" where
  "extends st st' =
     (grows (files st) (files st') \<and>
      (\<forall>k d. map_of (added_media st) k = Some d \<longrightarrow> map_of (added_media st') k = Some d) \<and>
      drawn st \<le> drawn st')"

lemma extends_refl [simp]: "extends st st"
  by (simp add: extends_def)

lemma extends_trans: "extends a b \<Longrightarrow> extends b c \<Longrightarrow> extends a c"
  by (auto simp: extends_def intro: grows_trans)

lemma extends_files: "grows (files st) fs \<Longrightarrow> extends st (st\<lparr>files := fs\<rparr>)"
  by (simp add: extends_def)

lemma process_chart_rel_extends:
  "process_chart_rel uuid b a st rel = Inr (st', rel') \<Longrightarrow> extends st st'"
  by (auto simp: process_chart_rel_def bind_eq_Inr Let_def extends_def
      split: option.splits if_splits dest!: ensure_dir_grows copy2_grows intro: grows_trans)

lemma traverse_extends:
  assumes "\<And>s e s' e'. f s e = Inr (s', e') \<Longrightarrow> extends s s'"
      and "traverse f s es = Inr (s', es')"
  shows "extends s s'"
  by (rule traverse_rel[where R = extends and f = f, OF extends_refl extends_trans assms]) assumption+

lemma process_chart_relationships_extends:
  assumes "process_chart_relationships uuid p q b a st = Inr st'"
  shows "extends st st'"
proof (cases "exists (files st) p")
  case False
  with assms show ?thesis by (simp add: process_chart_relationships_def)
next
  case True
  with assms obtain rels_root st1 cs' fs' where
    t: "traverse (process_chart_rel uuid b a) st (children rels_root) = Inr (st1, cs')"
    and w: "write_xml (files st1) q (Element (tag rels_root) (attrib rels_root) cs') = Inr fs'"
    and e: "st' = st1\<lparr>files := fs'\<rparr>"
    by (auto simp: process_chart_relationships_def bind_eq_Inr)
  have "extends st st1"
    by (rule traverse_extends[OF _ t]) (rule process_chart_rel_extends)
  moreover have "extends st1 st'"
    using w e by (auto simp: write_xml_def intro!: extends_files dest: write_file_grows)
  ultimately show ?thesis by (rule extends_trans)
qed

lemma map_of_append_new: "map_of xs k = Some d \<Longrightarrow> map_of (xs @ ys) k = Some d"
  by (simp add: map_add_Some_iff)

lemma process_media_rel_extends:
  "process_media_rel b a sp st rel target = Inr (st', rel') \<Longrightarrow> extends st st'"
  by (auto simp: process_media_rel_def bind_eq_Inr Let_def extends_def map_add_Some_iff
      split: option.splits if_splits dest!: ensure_dir_grows copy2_grows intro: grows_trans)

lemma process_chart_target_extends0:
  assumes "process_chart_target uuid b a sp st rel target = Inr (st', rel')"
  shows "extends (st\<lparr>drawn := Suc (drawn st)\<rparr>) st'"
proof -
  let ?st0 = "st\<lparr>drawn := Suc (drawn st)\<rparr>"
  from assms[unfolded process_chart_target_def Let_def] obtain fs1 st1 where
    d: "ensure_dir (files ?st0) (path_join3 b ''ppt'' ''charts'') = Inr fs1" and
    r: "(if exists fs1 (path_join3 a ''ppt'' (normpath (path_join (dirname sp) target)))
         then bind (copy2 fs1 (path_join3 a ''ppt'' (normpath (path_join (dirname sp) target)))
                      (path_join3 b ''ppt'' (''charts/'' @ (''chart'' @ uuid (drawn st)) @ ''.xml''))) (\<lambda>fs2.
              bind (ensure_dir fs2 (path_join4 b ''ppt'' ''charts'' ''_rels'')) (\<lambda>fs3.
                if exists fs3 (path_join (path_join4 a ''ppt'' ''charts'' ''_rels'')
                                 (basename (normpath (path_join (dirname sp) target)) @ ''.rels''))
                then process_chart_relationships uuid
                       (path_join (path_join4 a ''ppt'' ''charts'' ''_rels'')
                          (basename (normpath (path_join (dirname sp) target)) @ ''.rels''))
                       (path_join (path_join4 b ''ppt'' ''charts'' ''_rels'')
                          ((''chart'' @ uuid (drawn st)) @ ''.xml.rels''))
                       b a (?st0\<lparr>files := fs3\<rparr>)
                else Inr (?st0\<lparr>files := fs3\<rparr>)))
         else Inr (?st0\<lparr>files := fs1\<rparr>)) = Inr st1" and
    s: "st' = st1"
    by (auto simp: bind_eq_Inr)
  have g1: "grows (files ?st0) fs1" using ensure_dir_grows[OF d] .
  have "extends ?st0 st1"
  proof (cases "exists fs1 (path_join3 a ''ppt'' (normpath (path_join (dirname sp) target)))")
    case False
    with r g1 show ?thesis by (auto intro: extends_files)
  next
    case True
    with r obtain fs2 fs3 where
      c: "copy2 fs1 (path_join3 a ''ppt'' (normpath (path_join (dirname sp) target)))
            (path_join3 b ''ppt'' (''charts/'' @ (''chart'' @ uuid (drawn st)) @ ''.xml'')) = Inr fs2" and
      d2: "ensure_dir fs2 (path_join4 b ''ppt'' ''charts'' ''_rels'') = Inr fs3" and
      r2: "(if exists fs3 (path_join (path_join4 a ''ppt'' ''charts'' ''_rels'')
                                 (basename (normpath (path_join (dirname sp) target)) @ ''.rels''))
            then process_chart_relationships uuid
                   (path_join (path_join4 a ''ppt'' ''charts'' ''_rels'')
                      (basename (normpath (path_join (dirname sp) target)) @ ''.rels''))
                   (path_join (path_join4 b ''ppt'' ''charts'' ''_rels'')
                      ((''chart'' @ uuid (drawn st)) @ ''.xml.rels''))
                   b a (?st0\<lparr>files := fs3\<rparr>)
            else Inr (?st0\<lparr>files := fs3\<rparr>)) = Inr st1"
      by (auto simp: bind_eq_Inr)
    have "grows (files ?st0) fs3"
      using g1 copy2_grows[OF c] ensure_dir_grows[OF d2] grows_trans by blast
    then have e3: "extends ?st0 (?st0\<lparr>files := fs3\<rparr>)" by (rule extends_files)
    from r2 have "extends (?st0\<lparr>files := fs3\<rparr>) st1"
      by (auto split: if_splits dest: process_chart_relationships_extends)
    with e3 show ?thesis by (rule extends_trans)
  qed
  with s show ?thesis by simp
qed

lemma process_chart_target_extends:
  assumes "process_chart_target uuid b a sp st rel target = Inr (st', rel')"
  shows "extends st st'"
proof -
  have "extends st (st\<lparr>drawn := Suc (drawn st)\<rparr>)" by (simp add: extends_def)
  then show ?thesis using process_chart_target_extends0[OF assms] extends_trans by blast
qed

lemma process_slide_rel_extends:
  "process_slide_rel uuid b a sp st rel = Inr (st', rel') \<Longrightarrow> extends st st'"
  by (auto simp: process_slide_rel_def dest: process_media_rel_extends process_chart_target_extends
      split: option.splits if_splits)

lemma process_slide_relationships_extends:
  assumes "process_slide_relationships uuid b a sp nsp st = Inr st'"
  shows "extends st st'"
proof -
  from assms[unfolded process_slide_relationships_def Let_def] obtain fs1 where
    d: "ensure_dir (files st) (path_join4 b ''ppt'' (dirname nsp) ''_rels'') = Inr fs1" and
    r: "(if \<not> exists fs1 (path_join (path_join4 a ''ppt'' (dirname sp) ''_rels'') (basename sp @ ''.rels''))
         then Inr (st\<lparr>files := fs1\<rparr>)
         else bind (parse fs1 (path_join (path_join4 a ''ppt'' (dirname sp) ''_rels'') (basename sp @ ''.rels'')))
                (\<lambda>rels_root.
                bind (traverse (process_slide_rel uuid b a sp) (st\<lparr>files := fs1\<rparr>) (children rels_root)) (\<lambda>(st1, cs').
                bind (write_xml (files st1) (path_join (path_join4 b ''ppt'' (dirname nsp) ''_rels'') (basename nsp @ ''.rels''))
                        (Element (tag rels_root) (attrib rels_root) cs')) (\<lambda>fs'.
                  Inr (st1\<lparr>files := fs'\<rparr>))))) = Inr st'"
    by (auto simp: bind_eq_Inr)
  have e1: "extends st (st\<lparr>files := fs1\<rparr>)"
    using ensure_dir_grows[OF d] by (rule extends_files)
  show ?thesis
  proof (cases "exists fs1 (path_join (path_join4 a ''ppt'' (dirname sp) ''_rels'') (basename sp @ ''.rels''))")
    case False
    with r e1 show ?thesis by auto
  next
    case True
    with r obtain rels_root st1 cs' fs' where
      t: "traverse (process_slide_rel uuid b a sp) (st\<lparr>files := fs1\<rparr>) (children rels_root) = Inr (st1, cs')"
      and w: "write_xml (files st1) (path_join (path_join4 b ''ppt'' (dirname nsp) ''_rels'') (basename nsp @ ''.rels''))
                        (Element (tag rels_root) (attrib rels_root) cs') = Inr fs'"
      and e: "st' = st1\<lparr>files := fs'\<rparr>"
      by (auto simp: bind_eq_Inr)
    have "extends (st\<lparr>files := fs1\<rparr>) st1"
      by (rule traverse_extends[OF _ t]) (rule process_slide_rel_extends)
    moreover have "extends st1 st'"
      using w e by (auto simp: write_xml_def intro!: extends_files dest: write_file_grows)
    ultimately show ?thesis using e1 extends_trans by blast
  qed
qed

lemma add_slide_extends:
  assumes "add_slide uuid root rels_root st sp = Inr st'"
  shows "extends st st'"
proof -
  from assms[unfolded add_slide_def Let_def] obtain fs1 fs2 st2 where
    d: "ensure_dir (files st) (path_join3 base_dir ''ppt'' ''slides'') = Inr fs1" and
    c: "copy2 fs1 (path_join3 add_dir ''ppt'' sp)
          (path_join3 base_dir ''ppt'' (''slides/slide'' @ str_int (max_slide_id st + 1) @ ''.xml'')) = Inr fs2" and
    s2: "extends st st2" "files st2 = fs2" and
    p: "process_slide_relationships uuid base_dir add_dir sp
          (''slides/slide'' @ str_int (max_slide_id st + 1) @ ''.xml'') st2 = Inr st'"
  proof -
    from assms[unfolded add_slide_def Let_def] obtain fs1 fs2 where
      d: "ensure_dir (files st) (path_join3 base_dir ''ppt'' ''slides'') = Inr fs1" and
      c: "copy2 fs1 (path_join3 add_dir ''ppt'' sp)
            (path_join3 base_dir ''ppt'' (''slides/slide'' @ str_int (max_slide_id st + 1) @ ''.xml'')) = Inr fs2" and
      p: "process_slide_relationships uuid base_dir add_dir sp
            (''slides/slide'' @ str_int (max_slide_id st + 1) @ ''.xml'')
            (st\<lparr>files := fs2, max_slide_id := max_slide_id st + 1, max_rel_id := max_rel_id st + 1,
                new_slide_elems := new_slide_elems st @ [new_slide_elem root (max_slide_id st + 1) (max_rel_id st + 1)],
                new_rel_elems := new_rel_elems st @ [new_rel_elem rels_root (max_slide_id st + 1) (max_rel_id st + 1)]\<rparr>)
          = Inr st'"
      by (auto simp: bind_eq_Inr)
    have "grows (files st) fs2"
      using ensure_dir_grows[OF d] copy2_grows[OF c] grows_trans by blast
    then have "extends st (st\<lparr>files := fs2, max_slide_id := max_slide_id st + 1, max_rel_id := max_rel_id st + 1,
                new_slide_elems := new_slide_elems st @ [new_slide_elem root (max_slide_id st + 1) (max_rel_id st + 1)],
                new_rel_elems := new_rel_elems st @ [new_rel_elem rels_root (max_slide_id st + 1) (max_rel_id st + 1)]\<rparr>)"
      by (simp add: extends_def)
    with d c p that show ?thesis by force
  qed
  from process_slide_relationships_extends[OF p] s2(1) show ?thesis
    using extends_trans by blast
qed

lemma copy_slide_cases:
  assumes "copy_slide uuid root rels_root add_root st e = Inr st'"
  shows "st' = st \<or> (\<exists>sp. exists (files st) (path_join3 add_dir ''ppt'' sp) \<and>
                           add_slide uuid root rels_root st sp = Inr st')"
proof -
  from assms[unfolded copy_slide_def Let_def] obtain add_rels_root where
    r: "(case find_slide_rel add_rels_root (get_attr e (''{'' @ get_namespace add_root ''r'' @ ''}id'')) of
          None \<Rightarrow> Inr st
        | Some slide_rel \<Rightarrow>
            (case get_attr slide_rel ''Target'' of
               None \<Rightarrow> Inl (TypeError, files st)
             | Some slide_path \<Rightarrow>
                 if \<not> exists (files st) (path_join3 add_dir ''ppt'' slide_path) then Inr st
                 else add_slide uuid root rels_root st slide_path)) = Inr st'"
    by (auto simp: bind_eq_Inr)
  show ?thesis
  proof (cases "find_slide_rel add_rels_root (get_attr e (''{'' @ get_namespace add_root ''r'' @ ''}id''))")
    case None
    with r show ?thesis by simp
  next
    case (Some slide_rel)
    show ?thesis
    proof (cases "get_attr slide_rel ''Target''")
      case None
      with r Some show ?thesis by simp
    next
      case (Some slide_path)
      with r \<open>find_slide_rel add_rels_root (get_attr e (''{'' @ get_namespace add_root ''r'' @ ''}id'')) = Some slide_rel\<close>
      show ?thesis by (auto split: if_splits)
    qed
  qed
qed

lemma copy_slide_extends:
  "copy_slide uuid root rels_root add_root st e = Inr st' \<Longrightarrow> extends st st'"
  using copy_slide_cases add_slide_extends by fastforce

lemma copy_slides_extends:
  "copy_slides uuid root rels_root add_root st es = Inr st' \<Longrightarrow> extends st st'"
proof (induction es arbitrary: st)
  case Nil
  then show ?case by simp
next
  case (Cons e es)
  then show ?case
    by (auto simp: bind_eq_Inr dest!: copy_slide_extends intro: extends_trans)
qed

subsection \<open>Paths\<close>

lemma split_on_nonempty: "split_on c s \<noteq> []"
  by (induction s) (auto split: list.splits)

lemma split_on_append: "split_on c (xs @ c # ys) = split_on c xs @ split_on c ys"
proof (induction xs)
  case Nil
  show ?case by simp
next
  case (Cons x xs)
  obtain w ws where w: "split_on c xs = w # ws"
    using split_on_nonempty[of c xs] by (cases "split_on c xs") auto
  show ?case using Cons w by simp
qed

lemma split_on_plain: "c \<notin> set s \<Longrightarrow> split_on c s = [s]"
  by (induction s) auto

lemma norm_comps_append:
  "norm_comps b acc (xs @ ys) = norm_comps b (norm_comps b acc xs) ys"
  by (induction xs arbitrary: acc) auto

lemma norm_comps_nonempty_parts:
  "list_all (\<lambda>x. x \<noteq> []) acc \<Longrightarrow> list_all (\<lambda>x. x \<noteq> []) (norm_comps b acc xs)"
proof (induction xs arbitrary: acc)
  case Nil
  then show ?case by simp
next
  case (Cons x xs)
  have bl: "list_all (\<lambda>x. x \<noteq> []) (butlast acc)"
    using Cons.prems by (auto simp: list_all_iff dest: in_set_butlastD)
  show ?case
  proof (cases "x = [] \<or> x = ''.''")
    case True
    then show ?thesis using Cons by auto
  next
    case False
    then have "list_all (\<lambda>x. x \<noteq> []) (acc @ [x])" using Cons.prems by simp
    then show ?thesis
      using False Cons.IH[of "acc @ [x]"] Cons.IH[of "butlast acc"] Cons.IH[of acc] bl Cons.prems
      by auto
  qed
qed

lemma join_with_snoc: "xs \<noteq> [] \<Longrightarrow> join_with sep (xs @ [w]) = join_with sep xs @ sep @ w"
  by (induction sep xs rule: join_with.induct) auto

lemma join_with_nonempty: "xs \<noteq> [] \<Longrightarrow> list_all (\<lambda>x. x \<noteq> []) xs \<Longrightarrow> join_with sep xs \<noteq> []"
  by (induction sep xs rule: join_with.induct) auto

text \<open>A name that is one component of a path.\<close>

definition plain :: "string \<Rightarrow> bool" where
  "plain name = (name \<noteq> [] \<and> name \<noteq> ''.'' \<and> name \<noteq> ''..'' \<and> CHR ''/'' \<notin> set name)"

lemma normpath_snoc:
  assumes "d \<noteq> []" and "\<not> startswith d ''/''"
      and "norm_comps False [] (split_on CHR ''/'' d) \<noteq> []" and "plain name"
  shows "normpath (d @ ''/'' @ name) = normpath d @ ''/'' @ name"
proof -
  let ?cs = "norm_comps False [] (split_on CHR ''/'' d)"
  have s: "\<not> startswith (d @ ''/'' @ name) ''/''"
    using assms(1,2) by (cases d) (auto simp: startswith_def)
  have sp: "split_on CHR ''/'' (d @ ''/'' @ name) = split_on CHR ''/'' d @ [name]"
    using split_on_append[of "CHR ''/''" d name] split_on_plain[of "CHR ''/''" name] assms(4)
    by (simp add: plain_def)
  have nc: "norm_comps False [] (split_on CHR ''/'' (d @ ''/'' @ name)) = ?cs @ [name]"
    using assms(3,4) by (simp only: sp norm_comps_append) (simp add: plain_def)
  have ne: "join_with ''/'' ?cs \<noteq> []"
    using join_with_nonempty[OF assms(3)] norm_comps_nonempty_parts[of "[]" False] by simp
  have d: "normpath d = join_with ''/'' ?cs"
    using assms(1,2) ne by (simp add: normpath_def Let_def)
  have "normpath (d @ ''/'' @ name) = join_with ''/'' (?cs @ [name])"
    using s nc by (simp add: normpath_def Let_def join_with_snoc[OF assms(3)])
  then show ?thesis using d join_with_snoc[OF assms(3)] by simp
qed

lemma str_int_no_slash: "CHR ''/'' \<notin> set (str_int i)"
proof -
  have "\<not> is_digit CHR ''/''" by (simp add: is_digit_def)
  then have "\<And>n. CHR ''/'' \<notin> set (str_nat n)"
    using str_nat_digits by (metis list_all_iff)
  then show ?thesis by (simp add: str_int_def)
qed

lemma basename_no_slash: "CHR ''/'' \<notin> set (basename p)"
proof -
  have "\<And>xs. CHR ''/'' \<notin> set (takeWhile (\<lambda>c. c \<noteq> CHR ''/'') xs)"
    by (metis (mono_tags, lifting) set_takeWhileD)
  then show ?thesis by (simp add: basename_def)
qed

lemma splitext_ext_no_slash: "CHR ''/'' \<notin> set (splitext_ext p)"
  using basename_no_slash[of p] by (auto simp: splitext_ext_def Let_def dest: in_set_dropD)

lemma plain_image: "plain (''image'' @ str_int n @ splitext_ext p)"
  using str_int_no_slash splitext_ext_no_slash by (simp add: plain_def)


lemma media_path_norm:
  "plain name \<Longrightarrow>
   normpath (path_join3 base_dir ''ppt'' (''media/'' @ name)) = ''temp_ppt_merge/base/ppt/media/'' @ name"
proof -
  assume p: "plain name"
  have j1: "path_join base_dir ''ppt'' = ''temp_ppt_merge/base/ppt''" by code_simp
  have j2: "\<not> startswith (''media/'' @ name) ''/''" by (simp add: startswith_def)
  have j3: "\<not> endswith ''temp_ppt_merge/base/ppt'' ''/''" by code_simp
  have j: "path_join3 base_dir ''ppt'' (''media/'' @ name) = ''temp_ppt_merge/base/ppt/media'' @ ''/'' @ name"
    unfolding path_join3_def j1 using j2 j3 by (simp add: path_join_def)
  have n: "''temp_ppt_merge/base/ppt/media'' \<noteq> []" by simp
  have a: "\<not> startswith ''temp_ppt_merge/base/ppt/media'' ''/''"
    by (simp add: startswith_def)
  have b: "norm_comps False [] (split_on CHR ''/'' ''temp_ppt_merge/base/ppt/media'') \<noteq> []"
    by code_simp
  have c: "normpath ''temp_ppt_merge/base/ppt/media'' = ''temp_ppt_merge/base/ppt/media''"
    by code_simp
  have "normpath (''temp_ppt_merge/base/ppt/media'' @ ''/'' @ name) = normpath ''temp_ppt_merge/base/ppt/media'' @ ''/'' @ name"
    by (rule normpath_snoc[OF n a b p])
  then show ?thesis unfolding j c by simp
qed


lemma media_dir_ancestors:
  "map normpath (ancestors (path_join3 base_dir ''ppt'' ''media'')) =
     [''temp_ppt_merge'', ''temp_ppt_merge/base'', ''temp_ppt_merge/base/ppt'',
      ''temp_ppt_merge/base/ppt/media'']"
  by code_simp

lemma media_dir_norm:
  "normpath (path_join3 base_dir ''ppt'' ''media'') = ''temp_ppt_merge/base/ppt/media''"
  by code_simp



text \<open>Making the directory of the media, or of the slides, leaves a file in it as it was.\<close>

lemma ensure_media_dir_keeps:
  assumes "ensure_dir fs (path_join3 base_dir ''ppt'' ''media'') = Inr fs'" and "plain name"
  shows "node_at fs' (path_join3 base_dir ''ppt'' (''media/'' @ name)) =
         node_at fs (path_join3 base_dir ''ppt'' (''media/'' @ name))"
proof -
  let ?q = "path_join3 base_dir ''ppt'' (''media/'' @ name)"
  have "normpath ?q \<notin> set (map normpath (ancestors (path_join3 base_dir ''ppt'' ''media'')))"
    unfolding media_dir_ancestors media_path_norm[OF assms(2)] by simp
  moreover have "normpath ?q \<noteq> normpath (path_join3 base_dir ''ppt'' ''media'')"
    unfolding media_dir_norm media_path_norm[OF assms(2)] by simp
  ultimately show ?thesis
    using ensure_dir_new[OF assms(1), of ?q] by auto
qed


lemma path_join3_nonempty: "c \<noteq> [] \<Longrightarrow> path_join3 a b c \<noteq> []"
  by (auto simp: path_join3_def path_join_def startswith_def)

subsection \<open>The values drawn from the UUID generator\<close>

text \<open>Two generators that return the same values for the draws numbered from \<open>a\<close> up to \<open>b\<close>.\<close>

definition same_draws :: "(nat \<Rightarrow> string) \<Rightarrow> (nat \<Rightarrow> string) \<Rightarrow> nat \<Rightarrow> nat \<Rightarrow> bool" where
  "same_draws u u' a b = (\<forall>n. a \<le> n \<and> n < b \<longrightarrow> u' n = u n)"

lemma same_draws_sub: "same_draws u u' a d \<Longrightarrow> a \<le> b \<Longrightarrow> c \<le> d \<Longrightarrow> same_draws u u' b c"
  by (simp add: same_draws_def)

lemma same_draws_first: "same_draws u u' a b \<Longrightarrow> a < b \<Longrightarrow> u' a = u a"
  by (simp add: same_draws_def)

lemma extends_drawn: "extends st st' \<Longrightarrow> drawn st \<le> drawn st'"
  by (simp add: extends_def)

lemma process_chart_rel_indep:
  assumes "process_chart_rel u b a st rel = Inr (st', rel')"
      and "same_draws u u' (drawn st) (drawn st')"
  shows "process_chart_rel u' b a st rel = Inr (st', rel')"
proof (cases "\<exists>target rel_type. get_attr rel ''Target'' = Some target \<and> get_attr rel ''Type'' = Some rel_type \<and>
                contains rel_type ''package'' \<and> contains target ''.xlsx''")
  case False
  then have "process_chart_rel u' b a st rel = process_chart_rel u b a st rel"
    by (auto simp: process_chart_rel_def split: option.splits)
  with assms(1) show ?thesis by simp
next
  case True
  with assms(1) have "drawn st' = Suc (drawn st)"
    by (auto simp: process_chart_rel_def bind_eq_Inr Let_def)
  then have "u' (drawn st) = u (drawn st)"
    using same_draws_first[OF assms(2)] by simp
  then have "process_chart_rel u' b a st rel = process_chart_rel u b a st rel"
    by (simp only: process_chart_rel_def)
  with assms(1) show ?thesis by simp
qed

lemma traverse_indep_all:
  "\<forall>s e s' e'. f s e = Inr (s', e') \<longrightarrow> drawn s \<le> drawn s' \<Longrightarrow>
   \<forall>s e s' e'. f s e = Inr (s', e') \<longrightarrow> same_draws u u' (drawn s) (drawn s') \<longrightarrow> g s e = Inr (s', e') \<Longrightarrow>
   traverse f s es = Inr (s', es') \<Longrightarrow> same_draws u u' (drawn s) (drawn s') \<Longrightarrow>
   traverse g s es = Inr (s', es')"
proof (induction f s es arbitrary: s' es' rule: traverse.induct)
  case (1 f s)
  then show ?case by simp
next
  case (2 f s t a cs es)
  note mono = "2.prems"(1) and step = "2.prems"(2)
  have le: "drawn x \<le> drawn y" if "traverse f x zs = Inr (y, zs')" for x y zs zs'
    by (rule traverse_rel[where R = "\<lambda>a b. drawn a \<le> drawn b" and f = f, OF _ _ _ that])
       (use mono in auto)
  from "2.prems"(3) obtain s1 e1 s2 cs' s3 es1 where
    a: "f s (Element t a cs) = Inr (s1, e1)" and
    b: "traverse f s1 cs = Inr (s2, cs')" and
    c: "traverse f s2 es = Inr (s3, es1)" and
    d: "s' = s3" "es' = Element (tag e1) (attrib e1) cs' # es1"
    by (auto simp: bind_eq_Inr)
  have o: "drawn s \<le> drawn s1" "drawn s1 \<le> drawn s2" "drawn s2 \<le> drawn s3"
    using mono a le[OF b] le[OF c] by auto
  note sd = "2.prems"(4)[unfolded d(1)]
  have "same_draws u u' (drawn s) (drawn s1)"
    by (rule same_draws_sub[OF sd]) (use o in auto)
  then have a': "g s (Element t a cs) = Inr (s1, e1)"
    using step a by blast
  have "same_draws u u' (drawn s1) (drawn s2)"
    by (rule same_draws_sub[OF sd]) (use o in auto)
  then have b': "traverse g s1 cs = Inr (s2, cs')"
    by (rule "2.IH"(1)[OF a refl mono step b])
  have "same_draws u u' (drawn s2) (drawn s3)"
    by (rule same_draws_sub[OF sd]) (use o in auto)
  then have c': "traverse g s2 es = Inr (s3, es1)"
    by (rule "2.IH"(2)[OF a refl b refl mono step c])
  show ?case using a' b' c' d by simp
qed

lemma traverse_indep:
  assumes "\<And>s e s' e'. f s e = Inr (s', e') \<Longrightarrow> drawn s \<le> drawn s'"
      and "\<And>s e s' e'. f s e = Inr (s', e') \<Longrightarrow> same_draws u u' (drawn s) (drawn s') \<Longrightarrow> g s e = Inr (s', e')"
      and "traverse f s es = Inr (s', es')" and "same_draws u u' (drawn s) (drawn s')"
  shows "traverse g s es = Inr (s', es')"
  by (rule traverse_indep_all[of f u u' g, OF _ _ assms(3,4)]) (use assms(1,2) in blast)+

lemma process_chart_relationships_indep:
  assumes "process_chart_relationships u p q b a st = Inr st'"
      and "same_draws u u' (drawn st) (drawn st')"
  shows "process_chart_relationships u' p q b a st = Inr st'"
proof (cases "exists (files st) p")
  case False
  with assms show ?thesis by (simp add: process_chart_relationships_def)
next
  case True
  with assms obtain rels_root st1 cs' fs' where
    ps: "parse (files st) p = Inr rels_root" and
    t: "traverse (process_chart_rel u b a) st (children rels_root) = Inr (st1, cs')"
    and w: "write_xml (files st1) q (Element (tag rels_root) (attrib rels_root) cs') = Inr fs'"
    and e: "st' = st1\<lparr>files := fs'\<rparr>"
    by (auto simp: process_chart_relationships_def bind_eq_Inr)
  have sd: "same_draws u u' (drawn st) (drawn st1)"
    using assms(2) e by simp
  have "traverse (process_chart_rel u' b a) st (children rels_root) = Inr (st1, cs')"
    by (rule traverse_indep[where f = "process_chart_rel u b a" and u = u and u' = u', OF _ _ t sd])
       (auto dest: process_chart_rel_extends extends_drawn process_chart_rel_indep)
  with True ps w e show ?thesis
    by (simp add: process_chart_relationships_def)
qed

lemma process_chart_target_indep:
  assumes "process_chart_target u b a sp st rel target = Inr (st', rel')"
      and "same_draws u u' (drawn st) (drawn st')"
  shows "process_chart_target u' b a sp st rel target = Inr (st', rel')"
proof -
  let ?st0 = "st\<lparr>drawn := Suc (drawn st)\<rparr>"
  let ?src = "path_join3 a ''ppt'' (normpath (path_join (dirname sp) target))"
  let ?crel = "path_join (path_join4 a ''ppt'' ''charts'' ''_rels'')
                 (basename (normpath (path_join (dirname sp) target)) @ ''.rels'')"
  let ?trel = "path_join (path_join4 b ''ppt'' ''charts'' ''_rels'') ((''chart'' @ u (drawn st)) @ ''.xml.rels'')"
  have "drawn ?st0 \<le> drawn st'"
    using process_chart_target_extends0[OF assms(1)] by (rule extends_drawn)
  then have lt: "drawn st < drawn st'" by simp
  then have eq: "u' (drawn st) = u (drawn st)"
    using same_draws_first[OF assms(2)] by simp
  from assms(1)[unfolded process_chart_target_def Let_def] obtain fs1 where
    d: "ensure_dir (files ?st0) (path_join3 b ''ppt'' ''charts'') = Inr fs1" and
    r: "(if exists fs1 ?src
         then bind (copy2 fs1 ?src (path_join3 b ''ppt'' (''charts/'' @ (''chart'' @ u (drawn st)) @ ''.xml''))) (\<lambda>fs2.
              bind (ensure_dir fs2 (path_join4 b ''ppt'' ''charts'' ''_rels'')) (\<lambda>fs3.
                if exists fs3 ?crel
                then process_chart_relationships u ?crel ?trel b a (?st0\<lparr>files := fs3\<rparr>)
                else Inr (?st0\<lparr>files := fs3\<rparr>)))
         else Inr (?st0\<lparr>files := fs1\<rparr>)) = Inr st'" and
    s: "rel' = set_attr ''Target'' (''../'' @ ''charts/'' @ (''chart'' @ u (drawn st)) @ ''.xml'') rel"
    by (auto simp: bind_eq_Inr)
  have r': "(if exists fs1 ?src
         then bind (copy2 fs1 ?src (path_join3 b ''ppt'' (''charts/'' @ (''chart'' @ u (drawn st)) @ ''.xml''))) (\<lambda>fs2.
              bind (ensure_dir fs2 (path_join4 b ''ppt'' ''charts'' ''_rels'')) (\<lambda>fs3.
                if exists fs3 ?crel
                then process_chart_relationships u' ?crel ?trel b a (?st0\<lparr>files := fs3\<rparr>)
                else Inr (?st0\<lparr>files := fs3\<rparr>)))
         else Inr (?st0\<lparr>files := fs1\<rparr>)) = Inr st'"
  proof (cases "exists fs1 ?src")
    case False
    with r show ?thesis by simp
  next
    case True
    with r obtain fs2 fs3 where
      c: "copy2 fs1 ?src (path_join3 b ''ppt'' (''charts/'' @ (''chart'' @ u (drawn st)) @ ''.xml'')) = Inr fs2" and
      d2: "ensure_dir fs2 (path_join4 b ''ppt'' ''charts'' ''_rels'') = Inr fs3" and
      r2: "(if exists fs3 ?crel
            then process_chart_relationships u ?crel ?trel b a (?st0\<lparr>files := fs3\<rparr>)
            else Inr (?st0\<lparr>files := fs3\<rparr>)) = Inr st'"
      by (auto simp: bind_eq_Inr)
    have "(if exists fs3 ?crel
            then process_chart_relationships u' ?crel ?trel b a (?st0\<lparr>files := fs3\<rparr>)
            else Inr (?st0\<lparr>files := fs3\<rparr>)) = Inr st'"
    proof (cases "exists fs3 ?crel")
      case False
      with r2 show ?thesis by simp
    next
      case True
      with r2 have p: "process_chart_relationships u ?crel ?trel b a (?st0\<lparr>files := fs3\<rparr>) = Inr st'"
        by simp
      have "same_draws u u' (drawn (?st0\<lparr>files := fs3\<rparr>)) (drawn st')"
        by (rule same_draws_sub[OF assms(2)]) simp_all
      from process_chart_relationships_indep[OF p this] True show ?thesis by simp
    qed
    with True c d2 show ?thesis by simp
  qed
  show ?thesis
    unfolding process_chart_target_def Let_def eq using d r' s by simp
qed

lemma process_slide_rel_indep:
  assumes "process_slide_rel u b a sp st rel = Inr (st', rel')"
      and "same_draws u u' (drawn st) (drawn st')"
  shows "process_slide_rel u' b a sp st rel = Inr (st', rel')"
proof (cases "\<exists>target rel_type. get_attr rel ''Target'' = Some target \<and> get_attr rel ''Type'' = Some rel_type \<and>
                \<not> (contains rel_type ''image'' \<or> contains rel_type ''audio'' \<or> contains rel_type ''video'') \<and>
                contains rel_type ''chart''")
  case False
  then have "process_slide_rel u' b a sp st rel = process_slide_rel u b a sp st rel"
    by (auto simp: process_slide_rel_def split: option.splits)
  with assms(1) show ?thesis by simp
next
  case True
  then obtain target where
    e: "\<And>v. process_slide_rel v b a sp st rel = process_chart_target v b a sp st rel target"
    by (auto simp: process_slide_rel_def)
  from assms(1) process_chart_target_indep[OF _ assms(2)] show ?thesis
    by (simp add: e)
qed

lemma process_slide_relationships_indep:
  assumes "process_slide_relationships u b a sp nsp st = Inr st'"
      and "same_draws u u' (drawn st) (drawn st')"
  shows "process_slide_relationships u' b a sp nsp st = Inr st'"
proof -
  let ?rp = "path_join (path_join4 a ''ppt'' (dirname sp) ''_rels'') (basename sp @ ''.rels'')"
  let ?tp = "path_join (path_join4 b ''ppt'' (dirname nsp) ''_rels'') (basename nsp @ ''.rels'')"
  from assms(1)[unfolded process_slide_relationships_def Let_def] obtain fs1 where
    d: "ensure_dir (files st) (path_join4 b ''ppt'' (dirname nsp) ''_rels'') = Inr fs1" and
    r: "(if \<not> exists fs1 ?rp
         then Inr (st\<lparr>files := fs1\<rparr>)
         else bind (parse fs1 ?rp)
                (\<lambda>rels_root.
                bind (traverse (process_slide_rel u b a sp) (st\<lparr>files := fs1\<rparr>) (children rels_root)) (\<lambda>(st1, cs').
                bind (write_xml (files st1) ?tp (Element (tag rels_root) (attrib rels_root) cs')) (\<lambda>fs'.
                  Inr (st1\<lparr>files := fs'\<rparr>))))) = Inr st'"
    by (auto simp: bind_eq_Inr)
  have "(if \<not> exists fs1 ?rp
         then Inr (st\<lparr>files := fs1\<rparr>)
         else bind (parse fs1 ?rp)
                (\<lambda>rels_root.
                bind (traverse (process_slide_rel u' b a sp) (st\<lparr>files := fs1\<rparr>) (children rels_root)) (\<lambda>(st1, cs').
                bind (write_xml (files st1) ?tp (Element (tag rels_root) (attrib rels_root) cs')) (\<lambda>fs'.
                  Inr (st1\<lparr>files := fs'\<rparr>))))) = Inr st'"
  proof (cases "exists fs1 ?rp")
    case False
    with r show ?thesis by simp
  next
    case True
    with r obtain rels_root st1 cs' fs' where
      ps: "parse fs1 ?rp = Inr rels_root" and
      t: "traverse (process_slide_rel u b a sp) (st\<lparr>files := fs1\<rparr>) (children rels_root) = Inr (st1, cs')"
      and w: "write_xml (files st1) ?tp (Element (tag rels_root) (attrib rels_root) cs') = Inr fs'"
      and e: "st' = st1\<lparr>files := fs'\<rparr>"
      by (auto simp: bind_eq_Inr)
    have sd: "same_draws u u' (drawn (st\<lparr>files := fs1\<rparr>)) (drawn st1)"
      using assms(2) e by simp
    have "traverse (process_slide_rel u' b a sp) (st\<lparr>files := fs1\<rparr>) (children rels_root) = Inr (st1, cs')"
      by (rule traverse_indep[where f = "process_slide_rel u b a sp" and u = u and u' = u', OF _ _ t sd])
         (auto dest: process_slide_rel_extends extends_drawn process_slide_rel_indep)
    with True ps w e show ?thesis by simp
  qed
  with d show ?thesis
    by (simp add: process_slide_relationships_def)
qed

lemma add_slide_indep:
  assumes "add_slide u root rels_root st sp = Inr st'"
      and "same_draws u u' (drawn st) (drawn st')"
  shows "add_slide u' root rels_root st sp = Inr st'"
proof -
  let ?nsp = "''slides/slide'' @ str_int (max_slide_id st + 1) @ ''.xml''"
  from assms(1)[unfolded add_slide_def Let_def] obtain fs1 fs2 where
    d: "ensure_dir (files st) (path_join3 base_dir ''ppt'' ''slides'') = Inr fs1" and
    c: "copy2 fs1 (path_join3 add_dir ''ppt'' sp) (path_join3 base_dir ''ppt'' ?nsp) = Inr fs2" and
    p: "process_slide_relationships u base_dir add_dir sp ?nsp
          (st\<lparr>files := fs2, max_slide_id := max_slide_id st + 1, max_rel_id := max_rel_id st + 1,
              new_slide_elems := new_slide_elems st @ [new_slide_elem root (max_slide_id st + 1) (max_rel_id st + 1)],
              new_rel_elems := new_rel_elems st @ [new_rel_elem rels_root (max_slide_id st + 1) (max_rel_id st + 1)]\<rparr>)
        = Inr st'"
    by (auto simp: bind_eq_Inr)
  have "process_slide_relationships u' base_dir add_dir sp ?nsp
          (st\<lparr>files := fs2, max_slide_id := max_slide_id st + 1, max_rel_id := max_rel_id st + 1,
              new_slide_elems := new_slide_elems st @ [new_slide_elem root (max_slide_id st + 1) (max_rel_id st + 1)],
              new_rel_elems := new_rel_elems st @ [new_rel_elem rels_root (max_slide_id st + 1) (max_rel_id st + 1)]\<rparr>)
        = Inr st'"
    by (rule process_slide_relationships_indep[OF p]) (use assms(2) in simp)
  with d c show ?thesis
    by (simp add: add_slide_def)
qed

lemma copy_slide_indep:
  assumes "copy_slide u root rels_root add_root st e = Inr st'"
      and "same_draws u u' (drawn st) (drawn st')"
  shows "copy_slide u' root rels_root add_root st e = Inr st'"
proof (cases "\<exists>add_rels_root slide_rel sp.
                parse (files st) (path_join4 add_dir ''ppt'' ''_rels'' ''presentation.xml.rels'') = Inr add_rels_root \<and>
                find_slide_rel add_rels_root (get_attr e (''{'' @ get_namespace add_root ''r'' @ ''}id'')) = Some slide_rel \<and>
                get_attr slide_rel ''Target'' = Some sp \<and>
                exists (files st) (path_join3 add_dir ''ppt'' sp)")
  case False
  have "copy_slide u' root rels_root add_root st e = copy_slide u root rels_root add_root st e"
  proof (cases "parse (files st) (path_join4 add_dir ''ppt'' ''_rels'' ''presentation.xml.rels'')")
    case (Inl x)
    then show ?thesis by (simp add: copy_slide_def bind_def)
  next
    case (Inr add_rels_root)
    with False show ?thesis
      by (auto simp: copy_slide_def split: option.splits)
  qed
  with assms(1) show ?thesis by simp
next
  case True
  then obtain sp where
    e: "\<And>v. copy_slide v root rels_root add_root st e = add_slide v root rels_root st sp"
    by (auto simp: copy_slide_def)
  from assms(1) add_slide_indep[OF _ assms(2)] show ?thesis
    by (simp add: e)
qed

lemma copy_slides_indep:
  "copy_slides u root rels_root add_root st es = Inr st' \<Longrightarrow> same_draws u u' (drawn st) (drawn st') \<Longrightarrow>
   copy_slides u' root rels_root add_root st es = Inr st'"
proof (induction es arbitrary: st)
  case Nil
  then show ?case by simp
next
  case (Cons e es)
  from Cons.prems(1) obtain st1 where
    a: "copy_slide u root rels_root add_root st e = Inr st1" and
    b: "copy_slides u root rels_root add_root st1 es = Inr st'"
    by (auto simp: bind_eq_Inr)
  have o: "drawn st \<le> drawn st1" "drawn st1 \<le> drawn st'"
    using copy_slide_extends[OF a] copy_slides_extends[OF b] by (auto dest: extends_drawn)
  have "same_draws u u' (drawn st) (drawn st1)"
    by (rule same_draws_sub[OF Cons.prems(2)]) (use o in auto)
  then have a': "copy_slide u' root rels_root add_root st e = Inr st1"
    by (rule copy_slide_indep[OF a])
  have "same_draws u u' (drawn st1) (drawn st')"
    by (rule same_draws_sub[OF Cons.prems(2)]) (use o in auto)
  then have "copy_slides u' root rels_root add_root st1 es = Inr st'"
    by (rule Cons.IH[OF b])
  with a' show ?case by simp
qed

lemma ex_loop:
  "copy_slides ex_uuid ex_base_root ex_base_rels ex_add_root ex_st0 ex_es = Inr ex_st1"
  by code_simp



lemma copy_slides_new_ids:
  assumes "copy_slides uuid root rels_root add_root st es = Inr st'"
      and "new_slide_elems st = []" and "new_rel_elems st = []"
  shows "\<exists>n\<le>length es.
           max_slide_id st' = max_slide_id st + int n \<and> max_rel_id st' = max_rel_id st + int n \<and>
           new_slide_elems st' =
             map (\<lambda>k. new_slide_elem root (max_slide_id st + 1 + int k) (max_rel_id st + 1 + int k)) [0..<n] \<and>
           new_rel_elems st' =
             map (\<lambda>k. new_rel_elem rels_root (max_slide_id st + 1 + int k) (max_rel_id st + 1 + int k)) [0..<n]"
  using copy_slides_counters[OF assms(1)] assms(2,3) by (auto simp: counters_def)




lemma sorted_wrt_map_upt: "sorted_wrt (<) (map (\<lambda>k. (a::int) + int k) [0..<n])"
  by (simp add: sorted_wrt_map sorted_wrt_iff_nth_less)

lemma distinct_map_upt:
  assumes "\<And>i j. f i = f j \<Longrightarrow> i = (j::int)"
  shows "distinct (map (\<lambda>k. f (a + int k)) [0..<n])"
proof -
  have "inj_on (\<lambda>k. f (a + int k)) (set [0..<n])"
    using assms by (auto simp: inj_on_def dest!: assms)
  then show ?thesis by (simp add: distinct_map)
qed

text \<open>
  C7. The ids given out in one run of the loop are, in each category, the numbers after the
  watermark in increasing order: the slide ids \<open>m + 1, m + 2, ...\<close> and the relationship
  ids \<open>rId(r + 1), rId(r + 2), ...\<close>; they are pairwise distinct, and the counters end at
  the last number given out, so that no number is given out twice.
\<close>

theorem allocated_ids_increasing:
  assumes "copy_slides uuid root rels_root add_root st es = Inr st'"
      and "new_slide_elems st = []" and "new_rel_elems st = []"
  shows "\<exists>n. map (\<lambda>e. get_attr e ''id'') (new_slide_elems st') =
               map (\<lambda>i. Some (str_int i)) (map (\<lambda>k. max_slide_id st + 1 + int k) [0..<n]) \<and>
             map (\<lambda>e. get_attr e ''Id'') (new_rel_elems st') =
               map (\<lambda>j. Some (''rId'' @ str_int j)) (map (\<lambda>k. max_rel_id st + 1 + int k) [0..<n]) \<and>
             sorted_wrt (<) (map (\<lambda>k. max_slide_id st + 1 + int k) [0..<n]) \<and>
             sorted_wrt (<) (map (\<lambda>k. max_rel_id st + 1 + int k) [0..<n]) \<and>
             distinct (map (\<lambda>e. get_attr e ''id'') (new_slide_elems st')) \<and>
             distinct (map (\<lambda>e. get_attr e ''Id'') (new_rel_elems st')) \<and>
             max_slide_id st' = max_slide_id st + int n \<and> max_rel_id st' = max_rel_id st + int n"
proof -
  from copy_slides_new_ids[OF assms] obtain n where
    m: "max_slide_id st' = max_slide_id st + int n" "max_rel_id st' = max_rel_id st + int n" and
    s: "new_slide_elems st' =
          map (\<lambda>k. new_slide_elem root (max_slide_id st + 1 + int k) (max_rel_id st + 1 + int k)) [0..<n]" and
    r: "new_rel_elems st' =
          map (\<lambda>k. new_rel_elem rels_root (max_slide_id st + 1 + int k) (max_rel_id st + 1 + int k)) [0..<n]"
    by blast
  have ids: "map (\<lambda>e. get_attr e ''id'') (new_slide_elems st') =
               map (\<lambda>k. Some (str_int (max_slide_id st + 1 + int k))) [0..<n]"
    using s by (simp add: comp_def)
  have rids: "map (\<lambda>e. get_attr e ''Id'') (new_rel_elems st') =
               map (\<lambda>k. Some (''rId'' @ str_int (max_rel_id st + 1 + int k))) [0..<n]"
    using r by (simp add: comp_def)
  have d1: "distinct (map (\<lambda>k. Some (str_int (max_slide_id st + 1 + int k))) [0..<n])"
    using distinct_map_upt[of "\<lambda>i. Some (str_int i)" "max_slide_id st + 1" n] str_int_inj by auto
  have d2: "distinct (map (\<lambda>k. Some (''rId'' @ str_int (max_rel_id st + 1 + int k))) [0..<n])"
    using distinct_map_upt[of "\<lambda>i. Some (''rId'' @ str_int i)" "max_rel_id st + 1" n] str_int_inj by auto
  show ?thesis
    using m ids rids d1 d2 sorted_wrt_map_upt[of "max_slide_id st + 1" n]
      sorted_wrt_map_upt[of "max_rel_id st + 1" n]
    by (intro exI[of _ n]) (simp add: comp_def)
qed

theorem allocated_ids_increasing_witness:
  "copy_slides ex_uuid ex_base_root ex_base_rels ex_add_root ex_st0 ex_es = Inr ex_st1 \<and>
   map (\<lambda>e. get_attr e ''id'') (new_slide_elems ex_st1) = [Some ''257'', Some ''258''] \<and>
   map (\<lambda>e. get_attr e ''Id'') (new_rel_elems ex_st1) = [Some ''rId2'', Some ''rId3''] \<and>
   distinct (map (\<lambda>e. get_attr e ''id'') (new_slide_elems ex_st1)) \<and>
   distinct (map (\<lambda>e. get_attr e ''Id'') (new_rel_elems ex_st1)) \<and>
   max_slide_id ex_st1 = 258 \<and> max_rel_id ex_st1 = 3"
proof -
  have a: "new_slide_elems ex_st0 = []" "new_rel_elems ex_st0 = []"
    by (simp_all add: ex_st0_def)
  have v: "map (\<lambda>e. get_attr e ''id'') (new_slide_elems ex_st1) = [Some ''257'', Some ''258'']"
    "map (\<lambda>e. get_attr e ''Id'') (new_rel_elems ex_st1) = [Some ''rId2'', Some ''rId3'']"
    "max_slide_id ex_st1 = 258" "max_rel_id ex_st1 = 3"
    by (simp_all add: ex_st1_def get_attr_def ex_sld_def ex_rel_def)
  from allocated_ids_increasing[OF ex_loop a] have
    "distinct (map (\<lambda>e. get_attr e ''id'') (new_slide_elems ex_st1)) \<and>
     distinct (map (\<lambda>e. get_attr e ''Id'') (new_rel_elems ex_st1))"
    by blast
  then show ?thesis using ex_loop v by blast
qed

text \<open>
  In mk2.py the two counters are incremented before the relationship of the slide is
  looked up, so a slide that is skipped uses up its numbers: after the loop the counters
  have advanced by the number of slides listed, and the slides that were copied carry
  increasing numbers.
\<close>

lemma copy_slide2_cases:
  assumes "copy_slide2 b s ns st e = Inr st'"
  shows "st' = st\<lparr>max_id := max_id st + 1, max_rel_id2 := max_rel_id2 st + 1\<rparr> \<or>
         (\<exists>fs f. st' = st\<lparr>max_id := max_id st + 1, max_rel_id2 := max_rel_id2 st + 1, files2 := fs,
                          new_slide_elems2 := new_slide_elems2 st @
                            [new_slide_elem2 ns (max_id st + 1) (max_rel_id2 st + 1)],
                          new_rel_elems2 := new_rel_elems2 st @
                            [new_rel_elem2 f (max_rel_id2 st + 1)]\<rparr>)"
proof -
  from assms[unfolded copy_slide2_def Let_def] obtain rel_root found where
    r: "(case (case found of [] \<Rightarrow> None | rel # rest \<Rightarrow> get_attr rel ''Target'') of
          None \<Rightarrow> Inr (st\<lparr>max_id := max_id st + 1, max_rel_id2 := max_rel_id2 st + 1\<rparr>)
        | Some slide_path \<Rightarrow>
            if slide_path = [] then Inr (st\<lparr>max_id := max_id st + 1, max_rel_id2 := max_rel_id2 st + 1\<rparr>)
            else bind (copy2 (files2 st) (path_join3 s ''ppt'' slide_path)
                         (path_join (path_join3 b ''ppt'' ''slides'') (basename slide_path))) (\<lambda>fs1.
                 bind (if exists fs1 (path_join (path_join (dirname (path_join3 s ''ppt'' slide_path)) ''_rels'')
                                         (basename slide_path @ ''.rels''))
                       then copy2 fs1 (path_join (path_join (dirname (path_join3 s ''ppt'' slide_path)) ''_rels'')
                                         (basename slide_path @ ''.rels''))
                              (path_join (path_join (path_join3 b ''ppt'' ''slides'') ''_rels'')
                                 (basename slide_path @ ''.rels''))
                       else Inr fs1) (\<lambda>fs2.
                   Inr (st\<lparr>max_id := max_id st + 1, max_rel_id2 := max_rel_id2 st + 1, files2 := fs2,
                           new_slide_elems2 := new_slide_elems2 st @
                             [new_slide_elem2 ns (max_id st + 1) (max_rel_id2 st + 1)],
                           new_rel_elems2 := new_rel_elems2 st @
                             [new_rel_elem2 (basename slide_path) (max_rel_id2 st + 1)]\<rparr>))))
        = Inr st'"
    by (auto simp: bind_eq_Inr)
  show ?thesis
  proof (cases "case found of [] \<Rightarrow> None | rel # rest \<Rightarrow> get_attr rel ''Target''")
    case None
    with r show ?thesis by simp
  next
    case (Some slide_path)
    show ?thesis
    proof (cases "slide_path = []")
      case True
      with r Some show ?thesis by simp
    next
      case False
      with r Some obtain fs2 where
        "st' = st\<lparr>max_id := max_id st + 1, max_rel_id2 := max_rel_id2 st + 1, files2 := fs2,
                   new_slide_elems2 := new_slide_elems2 st @
                     [new_slide_elem2 ns (max_id st + 1) (max_rel_id2 st + 1)],
                   new_rel_elems2 := new_rel_elems2 st @
                     [new_rel_elem2 (basename slide_path) (max_rel_id2 st + 1)]\<rparr>"
        by (auto simp: bind_eq_Inr)
      then show ?thesis by blast
    qed
  qed
qed

lemma copy_slide2_counters:
  assumes "copy_slide2 b s ns st e = Inr st'"
  shows "max_id st' = max_id st + 1 \<and> max_rel_id2 st' = max_rel_id2 st + 1 \<and>
         ((new_slide_elems2 st' = new_slide_elems2 st \<and> new_rel_elems2 st' = new_rel_elems2 st) \<or>
          (\<exists>f. new_slide_elems2 st' = new_slide_elems2 st @ [new_slide_elem2 ns (max_id st + 1) (max_rel_id2 st + 1)] \<and>
               new_rel_elems2 st' = new_rel_elems2 st @ [new_rel_elem2 f (max_rel_id2 st + 1)]))"
  using copy_slide2_cases[OF assms] by auto

lemma copy_slides2_skipped_ids_not_reused:
  "copy_slides2 b s ns st es = Inr st' \<Longrightarrow>
   max_id st' = max_id st + int (length es) \<and> max_rel_id2 st' = max_rel_id2 st + int (length es) \<and>
   (\<exists>ks. sorted_wrt (<) ks \<and> set ks \<subseteq> {0..<length es} \<and>
         map (\<lambda>e. get_attr e ''id'') (new_slide_elems2 st') =
           map (\<lambda>e. get_attr e ''id'') (new_slide_elems2 st) @
           map (\<lambda>k. Some (str_int (max_id st + 1 + int k))) ks \<and>
         map (\<lambda>e. get_attr e ''Id'') (new_rel_elems2 st') =
           map (\<lambda>e. get_attr e ''Id'') (new_rel_elems2 st) @
           map (\<lambda>k. Some (''rId'' @ str_int (max_rel_id2 st + 1 + int k))) ks)"
proof (induction es arbitrary: st)
  case Nil
  then show ?case by (auto intro: exI[of _ "[]"])
next
  case (Cons e es)
  from Cons.prems obtain st1 where
    a: "copy_slide2 b s ns st e = Inr st1" and
    r: "copy_slides2 b s ns st1 es = Inr st'"
    by (auto simp: bind_eq_Inr)
  from Cons.IH[OF r] obtain ks where
    c: "max_id st' = max_id st1 + int (length es)" "max_rel_id2 st' = max_rel_id2 st1 + int (length es)" and
    k: "sorted_wrt (<) ks" "set ks \<subseteq> {0..<length es}" and
    i: "map (\<lambda>e. get_attr e ''id'') (new_slide_elems2 st') =
           map (\<lambda>e. get_attr e ''id'') (new_slide_elems2 st1) @
           map (\<lambda>k. Some (str_int (max_id st1 + 1 + int k))) ks" and
    j: "map (\<lambda>e. get_attr e ''Id'') (new_rel_elems2 st') =
           map (\<lambda>e. get_attr e ''Id'') (new_rel_elems2 st1) @
           map (\<lambda>k. Some (''rId'' @ str_int (max_rel_id2 st1 + 1 + int k))) ks"
    by blast
  note d = copy_slide2_counters[OF a]
  have sk: "sorted_wrt (<) (map Suc ks)" "set (map Suc ks) \<subseteq> {0..<length (e # es)}"
    using k by (auto simp: sorted_wrt_map)
  have sh: "\<And>g (c::int). map (\<lambda>k. g (c + 1 + 1 + int k)) ks = map (\<lambda>k. g (c + 1 + int k)) (map Suc ks)"
    by (simp add: comp_def add.assoc)
  from d show ?case
  proof (elim conjE disjE exE)
    assume "max_id st1 = max_id st + 1" "max_rel_id2 st1 = max_rel_id2 st + 1"
      "new_slide_elems2 st1 = new_slide_elems2 st" "new_rel_elems2 st1 = new_rel_elems2 st"
    then show ?thesis
      using c i j sk by (intro conjI exI[of _ "map Suc ks"]) (simp_all add: sh comp_def add.assoc)
  next
    fix f
    assume "max_id st1 = max_id st + 1" "max_rel_id2 st1 = max_rel_id2 st + 1"
      "new_slide_elems2 st1 = new_slide_elems2 st @ [new_slide_elem2 ns (max_id st + 1) (max_rel_id2 st + 1)]"
      "new_rel_elems2 st1 = new_rel_elems2 st @ [new_rel_elem2 f (max_rel_id2 st + 1)]"
    then show ?thesis
      using c i j sk k
      by (intro conjI exI[of _ "0 # map Suc ks"])
         (auto simp: comp_def add.assoc new_slide_elem2_def new_rel_elem2_def get_set_attr sorted_wrt_map)
  qed
qed











lemma map_of_filter_key:
  "\<not> Q k \<Longrightarrow> map_of (filter (\<lambda>(k', n). Q k') fs) k = None"
  by (induction fs) auto

lemma rmtree_removes:
  assumes "rmtree fs p = Inr fs'" and "normpath p \<noteq> ''.''" and "normpath p \<noteq> ''/''" and "normpath p \<noteq> ''//''"
  shows "node_at fs' p = None"
proof -
  from assms(1) have fs': "fs' = filter (\<lambda>(k, n). k \<noteq> normpath p \<and> \<not> under (normpath p) k) fs"
    by (auto simp: rmtree_def split: option.splits node.splits)
  have "map_of fs' (normpath p) = None"
    unfolding fs' by (rule map_of_filter_key) simp
  then show ?thesis using assms(2-4) by (simp add: node_at_def Let_def)
qed

lemma rmtree_fails:
  "rmtree fs p = Inl (e, fs') \<Longrightarrow> fs' = fs \<and> \<not> isdir fs p"
  by (auto simp: rmtree_def isdir_def split: option.splits node.splits)

text \<open>
  copy\_elements\_method.py removes its working directory in a \<^verbatim>\<open>finally\<close> block: whatever
  happens in the \<^verbatim>\<open>try\<close> block, no directory \<^verbatim>\<open>temp_ppt_merge\<close> is left when the call ends.
\<close>

lemma merge_presentations_removes_temp_dir:
  "\<not> isdir (final_files (merge_presentations uuid fs base_ppt_path add_ppt_path output_path)) temp_dir"
proof -
  obtain fs1 out where r:
    "(case merge_try uuid fs base_ppt_path add_ppt_path output_path of
        Inr (fs', msgs) \<Rightarrow> (fs', msgs)
      | Inl (e, fs') \<Rightarrow> (fs', [Error_merging e])) = (fs1, out)"
    by (cases "(case merge_try uuid fs base_ppt_path add_ppt_path output_path of
        Inr (fs', msgs) \<Rightarrow> (fs', msgs)
      | Inl (e, fs') \<Rightarrow> (fs', [Error_merging e]))") auto
  have n: "normpath temp_dir = ''temp_ppt_merge''"
    by code_simp
  show ?thesis
  proof (cases "exists fs1 temp_dir")
    case False
    then show ?thesis
      using r by (simp add: merge_presentations_def exists_def isdir_def)
  next
    case True
    show ?thesis
    proof (cases "rmtree fs1 temp_dir")
      case (Inr fs2)
      then have "node_at fs2 temp_dir = None"
        using rmtree_removes[of fs1 temp_dir fs2] n by simp
      then show ?thesis
        using r True Inr by (simp add: merge_presentations_def isdir_def)
    next
      case (Inl a)
      obtain e fs2 where a: "a = (e, fs2)" by (cases a)
      from rmtree_fails[of fs1 temp_dir e fs2] Inl a have "fs2 = fs1" "\<not> isdir fs1 temp_dir"
        by auto
      then show ?thesis
        using r True Inl a by (simp add: merge_presentations_def)
    qed
  qed
qed

text \<open>
  C8 does not hold for mk2.py, which has no \<^verbatim>\<open>finally\<close> block (nor has mk3.py): its working
  directory is removed by the last statement of the function, which an exception skips.
  The second of the two packages here has no slide list; \<^verbatim>\<open>merge_pptx_files\<close> raises
  \<^verbatim>\<open>ValueError\<close> after both packages were extracted, and the directory that \<^verbatim>\<open>mkdtemp\<close> made,
  \<^verbatim>\<open>/tmp/tmpk3\<close>, is left behind with the extracted files.
\<close>

theorem temp_dir_left_after_error:
  "merge_pptx_files ''/tmp/tmpk3'' ex2_fs ''one.pptx'' ''two.pptx'' ''merged'' = Inl (ValueError, ex2_left) \<and>
   isdir ex2_left ''/tmp/tmpk3'' \<and>
   isfile ex2_left ''/tmp/tmpk3/second/ppt/presentation.xml''"
  by code_simp













text \<open>
  C9, as the specification states it, fails: the name of a copied chart is made from a
  value of \<^verbatim>\<open>uuid.uuid4()\<close>. The chart relationship of the first slide of the example is
  processed twice from the same state, the generator returning \<^verbatim>\<open>00000000\<close> in one run and
  \<^verbatim>\<open>fffffff0\<close> in the other: the chart is copied to \<^verbatim>\<open>charts/chart00000000.xml\<close> in one and to
  \<^verbatim>\<open>charts/chartfffffff0.xml\<close> in the other, and the first path does not exist after the
  second run.
\<close>

theorem chart_path_counterexample:
  "process_chart_target ex_uuid base_dir add_dir ''slides/slide1.xml'' ex_st0
     (ex_rel ''rId2'' ex_chart_type ''../charts/chart1.xml'') ''../charts/chart1.xml''
     = Inr (ex_st0\<lparr>files := ex4_files ''chart00000000.xml'', drawn := 1\<rparr>,
            ex_rel ''rId2'' ex_chart_type ''../charts/chart00000000.xml'') \<and>
   process_chart_target ex_uuid2 base_dir add_dir ''slides/slide1.xml'' ex_st0
     (ex_rel ''rId2'' ex_chart_type ''../charts/chart1.xml'') ''../charts/chart1.xml''
     = Inr (ex_st0\<lparr>files := ex4_files ''chartfffffff0.xml'', drawn := 1\<rparr>,
            ex_rel ''rId2'' ex_chart_type ''../charts/chartfffffff0.xml'') \<and>
   isfile (ex4_files ''chart00000000.xml'') ''temp_ppt_merge/base/ppt/charts/chart00000000.xml'' \<and>
   \<not> exists (ex4_files ''chartfffffff0.xml'') ''temp_ppt_merge/base/ppt/charts/chart00000000.xml''"
  by code_simp

text \<open>
  C9, amended. The merge is deterministic given the values that the UUID generator returns:
  when the loop over the slides ends in a state \<open>st'\<close> with one generator, it ends in the
  same state, with the same files at the same paths, with every generator that returns the
  same values for the draws made in that run.
\<close>

theorem merge_deterministic_given_draws:
  assumes "copy_slides u root rels_root add_root st es = Inr st'"
      and "same_draws u u' (drawn st) (drawn st')"
  shows "copy_slides u' root rels_root add_root st es = Inr st'"
  using assms by (rule copy_slides_indep)

theorem merge_deterministic_given_draws_witness:
  "copy_slides ex_uuid ex_base_root ex_base_rels ex_add_root ex_st0 ex_es = Inr ex_st1 \<and>
   same_draws ex_uuid (\<lambda>n. if n < 2 then ex_uuid n else ''ffffffff'') (drawn ex_st0) (drawn ex_st1) \<and>
   copy_slides (\<lambda>n. if n < 2 then ex_uuid n else ''ffffffff'') ex_base_root ex_base_rels ex_add_root ex_st0 ex_es
     = Inr ex_st1"
proof -
  have s: "same_draws ex_uuid (\<lambda>n. if n < 2 then ex_uuid n else ''ffffffff'') (drawn ex_st0) (drawn ex_st1)"
    by (simp add: same_draws_def ex_st0_def ex_st1_def)
  from merge_deterministic_given_draws[OF ex_loop s] show ?thesis using ex_loop s by blast
qed

lemma ex5_media:
  "process_media_rel base_dir add_dir ''slides/slide1.xml'' ex_st0
     (ex_rel ''rId1'' ex_image_type ''../media/image7.png'') ''../media/image7.png''
     = Inr (ex5_st, ex_rel ''rId1'' ex_image_type ''../media/image1.png'')"
  by code_simp

text \<open>What a media relationship is rewritten to: the entry of \<open>added_media\<close> for its path.\<close>

lemma process_media_rel_entry:
  assumes "process_media_rel b a sp st rel target = Inr (st1, rel1)"
      and "\<not> startswith target ''http''"
  shows "\<exists>d. map_of (added_media st1) (normpath (path_join (dirname sp) target)) = Some d \<and>
             rel1 = set_attr ''Target'' (''../'' @ d) rel"
proof (cases "map_of (added_media st) (normpath (path_join (dirname sp) target))")
  case None
  with assms show ?thesis
    by (auto simp: process_media_rel_def Let_def bind_eq_Inr map_add_def)
next
  case (Some d)
  with assms show ?thesis
    by (auto simp: process_media_rel_def Let_def bind_eq_Inr)
qed

text \<open>
  C1, as the specification states it, fails. The second slide of the example refers to
  \<^verbatim>\<open>../media/image8.png\<close>, which the added package does not have: the loop ends, the
  relationships written for the copy of that slide, \<^verbatim>\<open>slide258.xml\<close>, name
  \<^verbatim>\<open>../media/image2.png\<close>, and no such file is in the target.
\<close>

theorem dangling_media_counterexample:
  "copy_slides ex_uuid ex_base_root ex_base_rels ex_add_root ex_st0 ex_es = Inr ex_st1 \<and>
   ex_rel ''rId3'' slide_rel_type ''slides/slide258.xml'' \<in> set (new_rel_elems ex_st1) \<and>
   parse (files ex_st1) ''temp_ppt_merge/base/ppt/slides/_rels/slide258.xml.rels'' = Inr ex_new_slide2_rels \<and>
   get_attr (children ex_new_slide2_rels ! 1) ''Target'' = Some ''../media/image2.png'' \<and>
   \<not> exists (files ex_st1) ''temp_ppt_merge/base/ppt/media/image2.png'' \<and>
   \<not> exists (files ex_st0) ''temp_ppt_merge/add/ppt/media/image8.png''"
proof -
  have "ex_rel ''rId3'' slide_rel_type ''slides/slide258.xml'' \<in> set (new_rel_elems ex_st1)"
    by (simp add: ex_st1_def)
  moreover have "parse (files ex_st1) ''temp_ppt_merge/base/ppt/slides/_rels/slide258.xml.rels'' = Inr ex_new_slide2_rels"
    by code_simp
  moreover have "get_attr (children ex_new_slide2_rels ! 1) ''Target'' = Some ''../media/image2.png''"
    by code_simp
  moreover have "\<not> exists (files ex_st1) ''temp_ppt_merge/base/ppt/media/image2.png''"
    by code_simp
  moreover have "\<not> exists (files ex_st0) ''temp_ppt_merge/add/ppt/media/image8.png''"
    by code_simp
  ultimately show ?thesis using ex_loop by blast
qed

text \<open>
  C1, amended. A media relationship (image, audio, video) whose target is not a URL,
  whose file is referred to for the first time in the merge and is present in the added
  package, is rewritten to \<^verbatim>\<open>../media/image<n><ext>\<close>, and that file is present in the
  target from then on, in every later state of the merge; the destination is assumed not
  to be a directory.
\<close>

theorem media_target_present:
  assumes "process_media_rel base_dir add_dir sp st rel target = Inr (st1, rel1)"
      and "\<not> startswith target ''http''"
      and "map_of (added_media st) (normpath (path_join (dirname sp) target)) = None"
      and "exists (files st) (path_join3 add_dir ''ppt'' (normpath (path_join (dirname sp) target)))"
      and "\<not> isdir (files st)
              (path_join3 base_dir ''ppt''
                 (''media/image'' @ str_int (int (length (added_media st)) + 1) @
                  splitext_ext (normpath (path_join (dirname sp) target))))"
      and "extends st1 st2"
  shows "\<exists>d. get_attr rel1 ''Target'' = Some (''../'' @ d) \<and> isfile (files st2) (path_join3 base_dir ''ppt'' d)"
proof -
  let ?mp = "normpath (path_join (dirname sp) target)"
  let ?name = "''image'' @ str_int (int (length (added_media st)) + 1) @ splitext_ext ?mp"
  let ?dst = "path_join3 base_dir ''ppt'' (''media/'' @ ?name)"
  have pl: "plain ?name" by (rule plain_image)
  from assms(1,2,3) have
    "\<exists>fs1 fs2. ensure_dir (files st) (path_join3 base_dir ''ppt'' ''media'') = Inr fs1 \<and>
       (if exists fs1 (path_join3 add_dir ''ppt'' ?mp)
        then copy2 fs1 (path_join3 add_dir ''ppt'' ?mp) ?dst else Inr fs1) = Inr fs2 \<and>
       files st1 = fs2 \<and>
       rel1 = set_attr ''Target'' (''../'' @ ''media/'' @ ?name) rel"
    by (auto simp: process_media_rel_def Let_def bind_eq_Inr map_add_def)
  then obtain fs1 fs2 where
    d: "ensure_dir (files st) (path_join3 base_dir ''ppt'' ''media'') = Inr fs1" and
    c: "(if exists fs1 (path_join3 add_dir ''ppt'' ?mp)
         then copy2 fs1 (path_join3 add_dir ''ppt'' ?mp) ?dst else Inr fs1) = Inr fs2" and
    s1: "files st1 = fs2" and
    r1: "rel1 = set_attr ''Target'' (''../'' @ ''media/'' @ ?name) rel"
    by blast
  have "exists fs1 (path_join3 add_dir ''ppt'' ?mp)"
    using grows_exists[OF ensure_dir_grows[OF d] assms(4)] .
  with c have c2: "copy2 fs1 (path_join3 add_dir ''ppt'' ?mp) ?dst = Inr fs2" by simp
  have "node_at fs1 ?dst = node_at (files st) ?dst"
    by (rule ensure_media_dir_keeps[OF d pl])
  then have nd: "\<not> isdir fs1 ?dst"
    using assms(5) by (simp add: isdir_def)
  have ne: "?dst \<noteq> []" by (rule path_join3_nonempty) simp
  from copy2_node_at[OF c2 nd] ne obtain cnt where "node_at fs2 ?dst = Some (File cnt)"
    by auto
  then have "isfile (files st1) ?dst" by (simp add: isfile_def s1)
  then have "isfile (files st2) ?dst"
    using assms(6) by (simp add: extends_def grows_def)
  moreover have "get_attr rel1 ''Target'' = Some (''../'' @ ''media/'' @ ?name)"
    by (simp add: r1 get_set_attr)
  ultimately show ?thesis by blast
qed

theorem media_target_present_witness:
  "process_media_rel base_dir add_dir ''slides/slide1.xml'' ex_st0
     (ex_rel ''rId1'' ex_image_type ''../media/image7.png'') ''../media/image7.png''
     = Inr (ex5_st, ex_rel ''rId1'' ex_image_type ''../media/image1.png'') \<and>
   \<not> startswith ''../media/image7.png'' ''http'' \<and>
   map_of (added_media ex_st0) (normpath (path_join (dirname ''slides/slide1.xml'') ''../media/image7.png'')) = None \<and>
   exists (files ex_st0)
     (path_join3 add_dir ''ppt'' (normpath (path_join (dirname ''slides/slide1.xml'') ''../media/image7.png''))) \<and>
   \<not> isdir (files ex_st0)
       (path_join3 base_dir ''ppt''
          (''media/image'' @ str_int (int (length (added_media ex_st0)) + 1) @
           splitext_ext (normpath (path_join (dirname ''slides/slide1.xml'') ''../media/image7.png'')))) \<and>
   extends ex5_st ex5_st \<and>
   isfile (files ex5_st) (path_join3 base_dir ''ppt'' ''media/image1.png'')"
proof -
  have h: "\<not> startswith ''../media/image7.png'' ''http''"
    by code_simp
  have n: "map_of (added_media ex_st0) (normpath (path_join (dirname ''slides/slide1.xml'') ''../media/image7.png'')) = None"
    by (simp add: ex_st0_def)
  have s: "exists (files ex_st0)
     (path_join3 add_dir ''ppt'' (normpath (path_join (dirname ''slides/slide1.xml'') ''../media/image7.png'')))"
    by code_simp
  have nd: "\<not> isdir (files ex_st0)
       (path_join3 base_dir ''ppt''
          (''media/image'' @ str_int (int (length (added_media ex_st0)) + 1) @
           splitext_ext (normpath (path_join (dirname ''slides/slide1.xml'') ''../media/image7.png''))))"
    by code_simp
  have e: "extends ex5_st ex5_st" by simp
  have t: "get_attr (ex_rel ''rId1'' ex_image_type ''../media/image1.png'') ''Target'' = Some ''../media/image1.png''"
    by (simp add: ex_rel_def get_attr_def)
  from media_target_present[OF ex5_media h n s nd e]
  have "isfile (files ex5_st) (path_join3 base_dir ''ppt'' ''media/image1.png'')"
    by (simp add: t)
  then show ?thesis using ex5_media h n s nd e by blast
qed

text \<open>
  C4, as the specification states it, fails for charts. The two slides of the example refer
  to the same chart, \<^verbatim>\<open>../charts/chart1.xml\<close>; each reference draws a name of its own, the
  chart is copied twice, and the two copied slides refer to different copies.
\<close>

theorem chart_copied_twice_counterexample:
  "get_attr (children ex_slide1_rels ! 1) ''Target'' = Some ''../charts/chart1.xml'' \<and>
   get_attr (children ex_slide2_rels ! 2) ''Target'' = Some ''../charts/chart1.xml'' \<and>
   copy_slides ex_uuid ex_base_root ex_base_rels ex_add_root ex_st0 ex_es = Inr ex_st1 \<and>
   node_at (files ex_st1) ''temp_ppt_merge/base/ppt/charts/chart00000000.xml'' = Some (File (Raw ''chart'')) \<and>
   node_at (files ex_st1) ''temp_ppt_merge/base/ppt/charts/chart00000001.xml'' = Some (File (Raw ''chart'')) \<and>
   parse (files ex_st1) ''temp_ppt_merge/base/ppt/slides/_rels/slide257.xml.rels'' = Inr ex_new_slide1_rels \<and>
   parse (files ex_st1) ''temp_ppt_merge/base/ppt/slides/_rels/slide258.xml.rels'' = Inr ex_new_slide2_rels \<and>
   get_attr (children ex_new_slide1_rels ! 1) ''Target'' = Some ''../charts/chart00000000.xml'' \<and>
   get_attr (children ex_new_slide2_rels ! 2) ''Target'' = Some ''../charts/chart00000001.xml''"
proof -
  have "get_attr (children ex_slide1_rels ! 1) ''Target'' = Some ''../charts/chart1.xml''"
    by code_simp
  moreover have "get_attr (children ex_slide2_rels ! 2) ''Target'' = Some ''../charts/chart1.xml''"
    by code_simp
  moreover have "node_at (files ex_st1) ''temp_ppt_merge/base/ppt/charts/chart00000000.xml'' = Some (File (Raw ''chart''))"
    by code_simp
  moreover have "node_at (files ex_st1) ''temp_ppt_merge/base/ppt/charts/chart00000001.xml'' = Some (File (Raw ''chart''))"
    by code_simp
  moreover have "parse (files ex_st1) ''temp_ppt_merge/base/ppt/slides/_rels/slide257.xml.rels'' = Inr ex_new_slide1_rels"
    by code_simp
  moreover have "parse (files ex_st1) ''temp_ppt_merge/base/ppt/slides/_rels/slide258.xml.rels'' = Inr ex_new_slide2_rels"
    by code_simp
  moreover have "get_attr (children ex_new_slide1_rels ! 1) ''Target'' = Some ''../charts/chart00000000.xml''"
    by code_simp
  moreover have "get_attr (children ex_new_slide2_rels ! 2) ''Target'' = Some ''../charts/chart00000001.xml''"
    by code_simp
  ultimately show ?thesis using ex_loop by blast
qed

text \<open>
  C4, amended: the claim holds for media files. Once a media relationship was processed,
  a later relationship of the same merge, of the same or of another slide, that refers to
  the same media file copies nothing: the state is left as it is, and the relationship is
  rewritten to the destination that the first one was given.
\<close>

theorem media_copied_once:
  assumes "process_media_rel b a sp1 st rel1 t1 = Inr (st1, rel1')"
      and "\<not> startswith t1 ''http''" and "\<not> startswith t2 ''http''"
      and "normpath (path_join (dirname sp2) t2) = normpath (path_join (dirname sp1) t1)"
      and "extends st1 st2"
  shows "\<exists>d. get_attr rel1' ''Target'' = Some (''../'' @ d) \<and>
             process_media_rel b a sp2 st2 rel2 t2 = Inr (st2, set_attr ''Target'' (''../'' @ d) rel2)"
proof -
  from process_media_rel_entry[OF assms(1,2)] obtain d where
    m: "map_of (added_media st1) (normpath (path_join (dirname sp1) t1)) = Some d" and
    r: "rel1' = set_attr ''Target'' (''../'' @ d) rel1"
    by blast
  from m assms(5) have "map_of (added_media st2) (normpath (path_join (dirname sp2) t2)) = Some d"
    by (simp add: extends_def assms(4))
  then have "process_media_rel b a sp2 st2 rel2 t2 = Inr (st2, set_attr ''Target'' (''../'' @ d) rel2)"
    using assms(3) by (simp add: process_media_rel_def)
  moreover have "get_attr rel1' ''Target'' = Some (''../'' @ d)"
    by (simp add: r get_set_attr)
  ultimately show ?thesis by blast
qed

theorem media_copied_once_witness:
  "process_media_rel base_dir add_dir ''slides/slide1.xml'' ex_st0
     (ex_rel ''rId1'' ex_image_type ''../media/image7.png'') ''../media/image7.png''
     = Inr (ex5_st, ex_rel ''rId1'' ex_image_type ''../media/image1.png'') \<and>
   \<not> startswith ''../media/image7.png'' ''http'' \<and>
   normpath (path_join (dirname ''slides/slide2.xml'') ''../media/image7.png'')
     = normpath (path_join (dirname ''slides/slide1.xml'') ''../media/image7.png'') \<and>
   extends ex5_st ex5_st \<and>
   process_media_rel base_dir add_dir ''slides/slide2.xml'' ex5_st
     (ex_rel ''rId1'' ex_image_type ''../media/image7.png'') ''../media/image7.png''
     = Inr (ex5_st, set_attr ''Target'' ''../media/image1.png'' (ex_rel ''rId1'' ex_image_type ''../media/image7.png''))"
proof -
  have h: "\<not> startswith ''../media/image7.png'' ''http''"
    by code_simp
  have n: "normpath (path_join (dirname ''slides/slide2.xml'') ''../media/image7.png'')
     = normpath (path_join (dirname ''slides/slide1.xml'') ''../media/image7.png'')"
    by code_simp
  have e: "extends ex5_st ex5_st" by simp
  have t: "get_attr (ex_rel ''rId1'' ex_image_type ''../media/image1.png'') ''Target'' = Some ''../media/image1.png''"
    by (simp add: ex_rel_def get_attr_def)
  from media_copied_once[OF ex5_media h h n e, of "ex_rel ''rId1'' ex_image_type ''../media/image7.png''"]
  have "process_media_rel base_dir add_dir ''slides/slide2.xml'' ex5_st
     (ex_rel ''rId1'' ex_image_type ''../media/image7.png'') ''../media/image7.png''
     = Inr (ex5_st, set_attr ''Target'' ''../media/image1.png'' (ex_rel ''rId1'' ex_image_type ''../media/image7.png''))"
    by (simp add: t)
  then show ?thesis using ex5_media h n e by blast
qed






end
